theory Spec2Isabelle
  imports Main
begin

section \<open>The PDF page-splitting subsystem\<close>

text \<open>
  Two route handlers are embedded here. The page resolver (\<open>POST\<close> of the page-fetch
  route) serves one page or a page range of a PDF stored under \<open>public/\<close>, from the
  pre-split files when they exist and by extraction otherwise. The job runner (\<open>POST\<close> of
  the processing route, with \<open>processPdfInBackground\<close>) splits a whole PDF into
  \<open>pdf-pages/<fileId>/page-<n>.pdf\<close> and keeps \<open>pdf-pages/<fileId>/status.json\<close> up to
  date.

  Conventions of the model.
  \<^item> A handler is applied to the fields of the parsed request body. Page numbers and
    range bounds are integers (\<open>int\<close>), paths are strings; an absent field
    (\<open>undefined\<close>) is \<open>None\<close>.
  \<^item> A file is named by its path below \<open>public/\<close>: \<open>path.join(process.cwd(), 'public', p)\<close>
    is the key \<open>p\<close>, and \<open>path.join(dir, name)\<close> is \<open>dir @ ''/'' @ name\<close>.
  \<^item> A thrown JavaScript value is a value of \<open>thrown\<close>; every \<open>try/catch\<close> of the source is
    a case distinction.
  \<^item> The PDF library is a parameter: loading a file gives a document or throws; a
    document gives its page count and, for each page index, the bytes of the one-page
    document made of that page, or throws.
  \<^item> The file system is a parameter in one respect: \<open>writable e p\<close> says whether a write
    to the path \<open>p\<close> goes through or throws, the same for every write to \<open>p\<close>.
  \<^item> Time is a parameter: \<open>now e k\<close> is what the \<open>k\<close>-th \<open>new Date()\<close> of the run reads.
  \<^item> A job runs uninterrupted: the detached call of \<open>processPdfInBackground\<close> is run to
    its end on the state the start request leaves.
\<close>

subsection \<open>Strings\<close>

type_synonym bytes = string

text \<open>\<open>s.startsWith(p)\<close>.\<close>

definition startsWith :: "string \<Rightarrow> string \<Rightarrow> bool" where
  "startsWith s p = (take (length p) s = p)"

text \<open>\<open>s.split('/').pop() || ''\<close>: what follows the last slash.\<close>

definition split_pop :: "string \<Rightarrow> string" where
  "split_pop s = rev (takeWhile (\<lambda>c. c \<noteq> CHR ''/'') (rev s))"

text \<open>
  \<open>s.replace(pat, rep)\<close> with a string pattern: the first occurrence of \<open>pat\<close> only, read
  from the left.
\<close>

fun replace :: "string \<Rightarrow> string \<Rightarrow> string \<Rightarrow> string" where
  "replace [] pat rep = (if pat = [] then rep else [])"
| "replace (c # cs) pat rep =
     (if take (length pat) (c # cs) = pat then rep @ drop (length pat) (c # cs)
      else c # replace cs pat rep)"

text \<open>\<open>s.slice(a, b)\<close> for indices that are not negative.\<close>

definition slice :: "string \<Rightarrow> int \<Rightarrow> int \<Rightarrow> string" where
  "slice s a b = take (nat b - nat a) (drop (nat a) s)"

text \<open>The decimal numeral a template literal prints for an integer.\<close>

fun digits :: "nat \<Rightarrow> string" where
  "digits n =
     (if n < 10 then [''0123456789'' ! n]
      else digits (n div 10) @ [''0123456789'' ! (n mod 10)])"

declare digits.simps [simp del]

definition number_string :: "int \<Rightarrow> string" where
  "number_string k = (if k < 0 then CHR ''-'' # digits (nat (- k)) else digits (nat k))"

subsection \<open>\<open>path.basename(path, suffix)\<close>\<close>

text \<open>
  The POSIX \<open>basename\<close> of Node's \<open>path\<close> module, which the job runner calls with the
  suffix \<open>'.pdf'\<close>. It scans the path from its last character to its first. The variables
  of the scan are the fields of \<open>scan\<close>; \<open>- 1\<close> is the sentinel Node uses.
\<close>

record scan =
  startIdx :: int
  endIdx :: int
  matchedSlash :: bool
  extIdx :: int
  firstNonSlashEnd :: int

text \<open>
  The loop with a suffix. \<open>suffix_scan path suffix n s\<close> runs the iterations
  \<open>i = n - 1, \<dots>, 0\<close>; the \<open>break\<close> is the branch that returns without a recursive call.
\<close>

fun suffix_scan :: "string \<Rightarrow> string \<Rightarrow> nat \<Rightarrow> scan \<Rightarrow> scan" where
  "suffix_scan path suffix 0 s = s"
| "suffix_scan path suffix (Suc i) s =
     (if path ! i = CHR ''/'' then
        (if \<not> matchedSlash s then s\<lparr>startIdx := int i + 1\<rparr>
         else suffix_scan path suffix i s)
      else
        (let s1 = (if firstNonSlashEnd s = - 1
                   then s\<lparr>matchedSlash := False, firstNonSlashEnd := int i + 1\<rparr> else s);
             s2 = (if extIdx s1 \<ge> 0 then
                     (if path ! i = suffix ! nat (extIdx s1) then
                        (if extIdx s1 - 1 = - 1
                         then s1\<lparr>extIdx := extIdx s1 - 1, endIdx := int i\<rparr>
                         else s1\<lparr>extIdx := extIdx s1 - 1\<rparr>)
                      else s1\<lparr>extIdx := - 1, endIdx := firstNonSlashEnd s1\<rparr>)
                   else s1)
         in suffix_scan path suffix i s2))"

text \<open>The loop without a suffix (taken when the suffix is longer than the path).\<close>

fun plain_scan :: "string \<Rightarrow> nat \<Rightarrow> scan \<Rightarrow> scan" where
  "plain_scan path 0 s = s"
| "plain_scan path (Suc i) s =
     (if path ! i = CHR ''/'' then
        (if \<not> matchedSlash s then s\<lparr>startIdx := int i + 1\<rparr>
         else plain_scan path i s)
      else if endIdx s = - 1 then plain_scan path i (s\<lparr>matchedSlash := False, endIdx := int i + 1\<rparr>)
      else plain_scan path i s)"

definition basename :: "string \<Rightarrow> string \<Rightarrow> string" where
  "basename path suffix =
     (let s0 = \<lparr>startIdx = 0, endIdx = - 1, matchedSlash = True,
                extIdx = int (length suffix) - 1, firstNonSlashEnd = - 1\<rparr>
      in if length suffix > 0 \<and> length suffix \<le> length path then
           (if suffix = path then []
            else
              (let s = suffix_scan path suffix (length path) s0;
                   e = (if startIdx s = endIdx s then firstNonSlashEnd s
                        else if endIdx s = - 1 then int (length path)
                        else endIdx s)
               in slice path (startIdx s) e))
         else
           (let s = plain_scan path (length path) s0
            in if endIdx s = - 1 then [] else slice path (startIdx s) (endIdx s)))"

subsection \<open>Files, documents and the environment\<close>

text \<open>A thrown value: an \<open>Error\<close> with its message, or anything else.\<close>

datatype thrown = ErrorObj string | NonError

text \<open>
  A loaded \<open>PDFDocument\<close>: \<open>getPageCount()\<close>, and for a page index \<open>i\<close> what
  \<open>PDFDocument.create()\<close>, \<open>copyPages(pdfDoc, [i])\<close>, \<open>addPage\<close> and \<open>save()\<close> give together.
\<close>

record pdf_doc =
  pageCount :: nat
  copyPage :: "int \<Rightarrow> thrown + bytes"

datatype job_state = Processing | Completed | Failed

text \<open>
  The object kept in \<open>status.json\<close>. The fields \<open>updatedAt\<close>, \<open>completedAt\<close> and \<open>error\<close>
  are absent from the first record, hence optional. Timestamps are instants (milliseconds);
  \<open>new Date(t.toISOString()).toISOString()\<close> gives \<open>t\<close> back.
\<close>

record job_status =
  status :: job_state
  totalPages :: nat
  processedPages :: nat
  startedAt :: nat
  updatedAt :: "nat option"
  completedAt :: "nat option"
  error :: "string option"

text \<open>A file holds bytes, or the JSON text of a status object.\<close>

datatype content = Binary bytes | StatusJson job_status

text \<open>
  The server's state: the files and directories below \<open>public/\<close>, and how many times the
  clock has been read. Two more fields record history and are read by no handler:
  every status object written, oldest first, and every page index handed to
  \<open>copyPages\<close>.
\<close>

record server =
  files :: "string \<rightharpoonup> content"
  dirs :: "string set"
  clock_reads :: nat
  status_log :: "job_status list"
  copy_log :: "int list"

text \<open>
  The environment: the clock, \<open>PDFDocument.load\<close> applied to the content of a file, which
  paths can be written, and the Base64 encoding of \<open>Buffer.toString('base64')\<close>.
\<close>

record env =
  now :: "nat \<Rightarrow> nat"
  PDFDocument_load :: "content \<Rightarrow> thrown + pdf_doc"
  writable :: "string \<Rightarrow> bool"
  base64 :: "bytes \<Rightarrow> string"

text \<open>
  \<open>fs.existsSync\<close>, \<open>fs.readFileSync\<close>, \<open>fs.writeFileSync\<close>, \<open>fs.mkdirSync\<close>, \<open>new Date()\<close>.
  An operation that changes the state and can throw returns \<open>(None, st')\<close> when it
  completes and \<open>(Some err, st')\<close> when it throws \<open>err\<close>, with the state reached.
\<close>

definition existsSync :: "server \<Rightarrow> string \<Rightarrow> bool" where
  "existsSync st p = (files st p \<noteq> None \<or> p \<in> dirs st)"

definition readFileSync :: "server \<Rightarrow> string \<Rightarrow> thrown + content" where
  "readFileSync st p =
     (case files st p of
        Some f \<Rightarrow> Inr f
      | None \<Rightarrow> Inl (ErrorObj (if p \<in> dirs st
                                then ''EISDIR: illegal operation on a directory, read''
                                else ''ENOENT: no such file or directory'')))"

definition writeFileSync :: "env \<Rightarrow> string \<Rightarrow> content \<Rightarrow> server \<Rightarrow> thrown option \<times> server" where
  "writeFileSync e p f st =
     (if writable e p then
        (None, st\<lparr>files := (files st)(p \<mapsto> f),
                   status_log := (case f of StatusJson r \<Rightarrow> status_log st @ [r]
                                          | Binary b \<Rightarrow> status_log st)\<rparr>)
      else (Some (ErrorObj ''EACCES: permission denied''), st))"

definition mkdirSync :: "string \<Rightarrow> server \<Rightarrow> server" where
  "mkdirSync p st = st\<lparr>dirs := insert p (dirs st)\<rparr>"

definition new_Date :: "env \<Rightarrow> server \<Rightarrow> nat \<times> server" where
  "new_Date e st = (now e (clock_reads st), st\<lparr>clock_reads := Suc (clock_reads st)\<rparr>)"

text \<open>\<open>JSON.parse(fs.readFileSync(p, 'utf-8'))\<close>: bytes that are no status object throw.\<close>

definition readStatus :: "server \<Rightarrow> string \<Rightarrow> thrown + job_status" where
  "readStatus st p =
     (case readFileSync st p of
        Inl err \<Rightarrow> Inl err
      | Inr (StatusJson r) \<Rightarrow> Inr r
      | Inr (Binary b) \<Rightarrow> Inl (ErrorObj ''Unexpected token in JSON''))"

text \<open>
  Paths. \<open>join dir name\<close> is \<open>path.join(dir, name)\<close>; \<open>pages_dir fileId\<close> is the directory
  \<open>path.join(process.cwd(), 'public', 'pdf-pages', fileId)\<close>; \<open>page_name n\<close> is the template
  \<open>page-${n}.pdf\<close>.
\<close>

definition join :: "string \<Rightarrow> string \<Rightarrow> string" where
  "join dir name = dir @ ''/'' @ name"

definition pages_dir :: "string \<Rightarrow> string" where
  "pages_dir fileId = ''/pdf-pages/'' @ fileId"

definition page_name :: "int \<Rightarrow> string" where
  "page_name n = ''page-'' @ number_string n @ ''.pdf''"

subsection \<open>The page resolver\<close>

record page_entry =
  pageNumber :: int
  url :: string
  isPreProcessed :: bool

text \<open>
  What the handler answers: \<open>External\<close> is \<open>{url: pdfUrl, isExternal: true}\<close>,
  \<open>JsonError msg code\<close> is \<open>{error: msg}\<close> with that HTTP status, \<open>Pages\<close> is the answer to
  a range request, \<open>PreProcessedPage\<close> the reference to a pre-split page, and \<open>PdfBody\<close>
  the extracted page served as \<open>application/pdf\<close>.
\<close>

datatype page_response =
    External "string option"
  | JsonError string nat
  | Pages "page_entry list" int int int
  | PreProcessedPage string int
  | PdfBody bytes

text \<open>The identifier the resolver derives from the URL.\<close>

definition resolver_fileId :: "string \<Rightarrow> string" where
  "resolver_fileId pdfUrl = replace (split_pop pdfUrl) ''.pdf'' []"

text \<open>\<open>/pdf-pages/${fileId}/page-${page}.pdf\<close>, also the key of that file below \<open>public/\<close>.\<close>

definition preProcessedPageUrl :: "string \<Rightarrow> int \<Rightarrow> string" where
  "preProcessedPageUrl fileId page = join (pages_dir fileId) (page_name page)"

text \<open>
  The first loop of a range request, over \<open>page = fromPage, \<dots>, toPage\<close>: a page with a
  pre-split file is pushed to \<open>pages\<close>, any other page to \<open>pagesToExtract\<close>.
\<close>

fun check_pages ::
  "server \<Rightarrow> string \<Rightarrow> int list \<Rightarrow> page_entry list \<times> int list \<Rightarrow> page_entry list \<times> int list"
where
  "check_pages st fileId [] acc = acc"
| "check_pages st fileId (page # rest) (pages, pagesToExtract) =
     (if existsSync st (preProcessedPageUrl fileId page) then
        check_pages st fileId rest
          (pages @ [\<lparr>pageNumber = page, url = preProcessedPageUrl fileId page,
                      isPreProcessed = True\<rparr>], pagesToExtract)
      else check_pages st fileId rest (pages, pagesToExtract @ [page]))"

text \<open>
  The second loop, over \<open>pagesToExtract\<close>: each page is copied out of the document and
  pushed as a data URL. A throw leaves the loop (and the handler's \<open>try\<close>).
\<close>

fun extract_pages ::
  "env \<Rightarrow> pdf_doc \<Rightarrow> int list \<Rightarrow> page_entry list \<Rightarrow> server \<Rightarrow> (thrown + page_entry list) \<times> server"
where
  "extract_pages e pdfDoc [] pages st = (Inr pages, st)"
| "extract_pages e pdfDoc (pageNum # rest) pages st =
     (let st1 = st\<lparr>copy_log := copy_log st @ [pageNum - 1]\<rparr>
      in case copyPage pdfDoc (pageNum - 1) of
           Inl err \<Rightarrow> (Inl err, st1)
         | Inr pageBytes \<Rightarrow>
             extract_pages e pdfDoc rest
               (pages @ [\<lparr>pageNumber = pageNum,
                           url = ''data:application/pdf;base64,'' @ base64 e pageBytes,
                           isPreProcessed = False\<rparr>]) st1)"

text \<open>The handler's \<open>catch\<close>.\<close>

definition extract_failed :: page_response where
  "extract_failed = JsonError ''Failed to extract page'' 500"

text \<open>The range branch, entered when \<open>fromPage\<close> and \<open>toPage\<close> are both defined.\<close>

definition range_request ::
  "env \<Rightarrow> server \<Rightarrow> string \<Rightarrow> pdf_doc \<Rightarrow> int \<Rightarrow> int \<Rightarrow> page_response \<times> server"
where
  "range_request e st pdfUrl pdfDoc fromPage toPage =
     (let totalPages = int (pageCount pdfDoc)
      in if fromPage < 1 \<or> toPage < 1 \<or> fromPage > totalPages \<or> toPage > totalPages
            \<or> fromPage > toPage
         then (JsonError ''Invalid page range'' 400, st)
         else
           (let fileId = resolver_fileId pdfUrl;
                (pages, pagesToExtract) = check_pages st fileId [fromPage..toPage] ([], [])
            in case extract_pages e pdfDoc pagesToExtract pages st of
                 (Inl err, st1) \<Rightarrow> (extract_failed, st1)
               | (Inr pages1, st1) \<Rightarrow>
                   (Pages (sort_key pageNumber pages1) totalPages fromPage toPage, st1)))"

text \<open>The single-page path.\<close>

definition single_request ::
  "env \<Rightarrow> server \<Rightarrow> string \<Rightarrow> pdf_doc \<Rightarrow> int option \<Rightarrow> page_response \<times> server"
where
  "single_request e st pdfUrl pdfDoc pageNum =
     (let totalPages = int (pageCount pdfDoc)
      in case pageNum of
           None \<Rightarrow> (JsonError ''Missing pageNumber or page range'' 400, st)
         | Some n \<Rightarrow>
             if n < 1 \<or> n > totalPages then (JsonError ''Invalid page number'' 400, st)
             else
               (let fileId = resolver_fileId pdfUrl
                in if existsSync st (preProcessedPageUrl fileId n)
                   then (PreProcessedPage (preProcessedPageUrl fileId n) n, st)
                   else
                     (let st1 = st\<lparr>copy_log := copy_log st @ [n - 1]\<rparr>
                      in case copyPage pdfDoc (n - 1) of
                           Inl err \<Rightarrow> (extract_failed, st1)
                         | Inr singlePageBytes \<Rightarrow> (PdfBody singlePageBytes, st1))))"

text \<open>
  \<open>POST\<close> of the page route, applied to the fields of the request body. It returns the
  response and the server's state afterwards.
\<close>

definition POST_page ::
  "env \<Rightarrow> server \<Rightarrow> string option \<Rightarrow> int option \<Rightarrow> int option \<Rightarrow> int option
     \<Rightarrow> page_response \<times> server"
where
  "POST_page e st pdfUrl pageNum fromPage toPage =
     (case pdfUrl of
        None \<Rightarrow> (External None, st)
      | Some u \<Rightarrow>
          if u = [] \<or> \<not> startsWith u ''/pdf/'' then (External (Some u), st)
          else if \<not> existsSync st u then (JsonError ''PDF file not found'' 404, st)
          else
            (case readFileSync st u of
               Inl err \<Rightarrow> (extract_failed, st)
             | Inr pdfBytes \<Rightarrow>
                 (case PDFDocument_load e pdfBytes of
                    Inl err \<Rightarrow> (extract_failed, st)
                  | Inr pdfDoc \<Rightarrow>
                      (case (fromPage, toPage) of
                         (Some f, Some t) \<Rightarrow> range_request e st u pdfDoc f t
                       | _ \<Rightarrow> single_request e st u pdfDoc pageNum))))"

subsection \<open>The job runner\<close>

text \<open>
  The four writes of \<open>processPdfInBackground\<close> to the status file, which the source has
  inline; they bear the names the specification gives them. Each reads the file, builds
  the new object and writes it. \<open>setTotalPages\<close> is the write after the document is
  loaded: it builds a fresh object and takes only \<open>startedAt\<close> from the file. The other
  three spread the object read (\<open>...currentStatus\<close>) and set some of its fields.
\<close>

definition setTotalPages :: "env \<Rightarrow> string \<Rightarrow> nat \<Rightarrow> server \<Rightarrow> thrown option \<times> server" where
  "setTotalPages e statusPath n st =
     (case readStatus st statusPath of
        Inl err \<Rightarrow> (Some err, st)
      | Inr old \<Rightarrow>
          (let (t, st1) = new_Date e st
           in writeFileSync e statusPath
                (StatusJson \<lparr>status = Processing, totalPages = n, processedPages = 0,
                             startedAt = startedAt old, updatedAt = Some t,
                             completedAt = None, error = None\<rparr>) st1))"

definition recordPageDone :: "env \<Rightarrow> string \<Rightarrow> nat \<Rightarrow> server \<Rightarrow> thrown option \<times> server" where
  "recordPageDone e statusPath pageNum st =
     (case readStatus st statusPath of
        Inl err \<Rightarrow> (Some err, st)
      | Inr currentStatus \<Rightarrow>
          (let (t, st1) = new_Date e st
           in writeFileSync e statusPath
                (StatusJson (currentStatus\<lparr>processedPages := pageNum, updatedAt := Some t\<rparr>))
                st1))"

definition markCompleted :: "env \<Rightarrow> string \<Rightarrow> server \<Rightarrow> thrown option \<times> server" where
  "markCompleted e statusPath st =
     (case readStatus st statusPath of
        Inl err \<Rightarrow> (Some err, st)
      | Inr finalStatus \<Rightarrow>
          (let (t1, st1) = new_Date e st;
               (t2, st2) = new_Date e st1
           in writeFileSync e statusPath
                (StatusJson (finalStatus\<lparr>status := Completed, completedAt := Some t1,
                                          updatedAt := Some t2\<rparr>)) st2))"

text \<open>\<open>error instanceof Error ? error.message : 'Unknown error'\<close>.\<close>

definition error_message :: "thrown \<Rightarrow> string" where
  "error_message err = (case err of ErrorObj m \<Rightarrow> m | NonError \<Rightarrow> ''Unknown error'')"

definition markFailed :: "env \<Rightarrow> string \<Rightarrow> thrown \<Rightarrow> server \<Rightarrow> thrown option \<times> server" where
  "markFailed e statusPath err st =
     (case readStatus st statusPath of
        Inl err1 \<Rightarrow> (Some err1, st)
      | Inr failedStatus \<Rightarrow>
          (let (t, st1) = new_Date e st
           in writeFileSync e statusPath
                (StatusJson (failedStatus\<lparr>status := Failed, error := Some (error_message err),
                                           updatedAt := Some t\<rparr>)) st1))"

text \<open>
  The body of the per-page loop for the index \<open>i\<close>, with its \<open>try/catch\<close>: whatever is
  thrown is logged, and the loop goes on from the state reached.
\<close>

definition process_page :: "env \<Rightarrow> pdf_doc \<Rightarrow> string \<Rightarrow> string \<Rightarrow> nat \<Rightarrow> server \<Rightarrow> server" where
  "process_page e pdfDoc pagesDir statusPath i st =
     (let pageNumber = i + 1;
          st1 = st\<lparr>copy_log := copy_log st @ [int i]\<rparr>
      in case copyPage pdfDoc (int i) of
           Inl err \<Rightarrow> st1
         | Inr pageBytes \<Rightarrow>
             (case writeFileSync e (join pagesDir (page_name (int pageNumber)))
                     (Binary pageBytes) st1 of
                (Some err, st2) \<Rightarrow> st2
              | (None, st2) \<Rightarrow> snd (recordPageDone e statusPath pageNumber st2)))"

text \<open>The outer \<open>try\<close> block: load, set the total, loop over the pages, mark completed.\<close>

definition job_body :: "env \<Rightarrow> string \<Rightarrow> string \<Rightarrow> string \<Rightarrow> server \<Rightarrow> thrown option \<times> server" where
  "job_body e pdfPath pagesDir statusPath st =
     (case readFileSync st pdfPath of
        Inl err \<Rightarrow> (Some err, st)
      | Inr pdfBytes \<Rightarrow>
          (case PDFDocument_load e pdfBytes of
             Inl err \<Rightarrow> (Some err, st)
           | Inr pdfDoc \<Rightarrow>
               (case setTotalPages e statusPath (pageCount pdfDoc) st of
                  (Some err, st1) \<Rightarrow> (Some err, st1)
                | (None, st1) \<Rightarrow>
                    markCompleted e statusPath
                      (fold (process_page e pdfDoc pagesDir statusPath)
                         [0..<pageCount pdfDoc] st1))))"

text \<open>
  \<open>processPdfInBackground\<close>: the outer \<open>try\<close>, and its \<open>catch\<close>, which marks the job failed;
  a throw while doing that is logged only.
\<close>

definition processPdfInBackground :: "env \<Rightarrow> string \<Rightarrow> string \<Rightarrow> string \<Rightarrow> server \<Rightarrow> server" where
  "processPdfInBackground e pdfPath pagesDir statusPath st =
     (case job_body e pdfPath pagesDir statusPath st of
        (None, st1) \<Rightarrow> st1
      | (Some err, st1) \<Rightarrow> snd (markFailed e statusPath err st1))"

text \<open>
  What the start handler answers: \<open>StartError msg code\<close> is \<open>{error: msg}\<close> with that
  status, \<open>Started fileId\<close> is \<open>{success: true, fileId, message}\<close>.
\<close>

datatype start_response = StartError string nat | Started string

text \<open>
  \<open>POST\<close> of the processing route, applied to the \<open>pdfPath\<close> field of the body. It returns
  the response, the state when the response is sent, and the arguments of the detached
  call of \<open>processPdfInBackground\<close> if one was made.
\<close>

definition POST_process ::
  "env \<Rightarrow> server \<Rightarrow> string option \<Rightarrow> start_response \<times> server \<times> (string \<times> string \<times> string) option"
where
  "POST_process e st pdfPath =
     (case pdfPath of
        None \<Rightarrow> (StartError ''Missing pdfPath'' 400, st, None)
      | Some p \<Rightarrow>
          if p = [] then (StartError ''Missing pdfPath'' 400, st, None)
          else if \<not> existsSync st p then (StartError ''PDF file not found'' 404, st, None)
          else
            (let fileId = basename p ''.pdf'';
                 pagesDir = pages_dir fileId;
                 st1 = (if \<not> existsSync st pagesDir then mkdirSync pagesDir st else st);
                 statusPath = join pagesDir ''status.json'';
                 (t, st2) = new_Date e st1
             in case writeFileSync e statusPath
                       (StatusJson \<lparr>status = Processing, totalPages = 0, processedPages = 0,
                                    startedAt = t, updatedAt = None, completedAt = None,
                                    error = None\<rparr>) st2 of
                  (Some err, st3) \<Rightarrow> (StartError ''Failed to start PDF processing'' 500, st3, None)
                | (None, st3) \<Rightarrow> (Started fileId, st3, Some (p, pagesDir, statusPath))))"

text \<open>
  One uninterrupted job: the start request, then the detached call run to its end with
  nothing else touching the state in between.
\<close>

definition run_job :: "env \<Rightarrow> server \<Rightarrow> string option \<Rightarrow> server" where
  "run_job e st pdfPath =
     (case POST_process e st pdfPath of
        (r, st1, None) \<Rightarrow> st1
      | (r, st1, Some (p, pagesDir, statusPath)) \<Rightarrow>
          processPdfInBackground e p pagesDir statusPath st1)"

subsection \<open>Notions used in the statements\<close>

text \<open>
  Loading the source document: \<open>fs.readFileSync(pdfPath)\<close> followed by
  \<open>PDFDocument.load\<close>, as the first two lines of the job's \<open>try\<close> block do.
\<close>

definition load_source :: "env \<Rightarrow> server \<Rightarrow> string \<Rightarrow> thrown + pdf_doc" where
  "load_source e st pdfPath =
     (case readFileSync st pdfPath of
        Inl err \<Rightarrow> Inl err
      | Inr pdfBytes \<Rightarrow> PDFDocument_load e pdfBytes)"

text \<open>The status object a path holds, if it holds one.\<close>

definition status_of :: "server \<Rightarrow> string \<Rightarrow> job_status option" where
  "status_of st p = (case files st p of Some (StatusJson r) \<Rightarrow> Some r | _ \<Rightarrow> None)"

text \<open>
  The page of index \<open>i\<close> goes through: copying it does not throw, and its file can be
  written.
\<close>

definition page_succeeds :: "env \<Rightarrow> pdf_doc \<Rightarrow> string \<Rightarrow> nat \<Rightarrow> bool" where
  "page_succeeds e pdfDoc pagesDir i =
     (case copyPage pdfDoc (int i) of
        Inl err \<Rightarrow> False
      | Inr pageBytes \<Rightarrow> writable e (join pagesDir (page_name (int (i + 1)))))"

text \<open>Two status objects that differ at most in \<open>processedPages\<close> and \<open>updatedAt\<close>.\<close>

definition same_job :: "job_status \<Rightarrow> job_status \<Rightarrow> bool" where
  "same_job r w =
     (status w = status r \<and> totalPages w = totalPages r \<and> startedAt w = startedAt r
      \<and> completedAt w = completedAt r \<and> error w = error r)"

text \<open>The invariant the specification states for a status object.\<close>

definition status_invariant :: "job_status \<Rightarrow> bool" where
  "status_invariant r =
     (processedPages r \<le> totalPages r
      \<and> ((completedAt r \<noteq> None) = (status r = Completed))
      \<and> ((error r \<noteq> None) = (status r = Failed)))"

text \<open>The status objects one uninterrupted job writes, in the order of the writes.\<close>

definition job_writes :: "env \<Rightarrow> server \<Rightarrow> string option \<Rightarrow> job_status list" where
  "job_writes e st pdfPath = drop (length (status_log st)) (status_log (run_job e st pdfPath))"

subsection \<open>A small server for the examples\<close>

text \<open>
  Two documents: one of three pages that all extract, one of two pages whose second page
  cannot be copied. The server holds both, a file that is no PDF, and page 2 of the first
  document already split.
\<close>

definition good_doc :: pdf_doc where
  "good_doc = \<lparr>pageCount = 3, copyPage = (\<lambda>i. Inr (''%PDF page '' @ number_string (i + 1)))\<rparr>"

definition torn_doc :: pdf_doc where
  "torn_doc = \<lparr>pageCount = 2,
                copyPage = (\<lambda>i. if i = 0 then Inr ''%PDF page 1''
                                else Inl (ErrorObj ''Expected instance of PDFDict''))\<rparr>"

definition sample_env :: env where
  "sample_env =
     \<lparr>now = (\<lambda>k. 1000 + k),
      PDFDocument_load =
        (\<lambda>f. if f = Binary ''good'' then Inr good_doc
              else if f = Binary ''torn'' then Inr torn_doc
              else Inl (ErrorObj ''No PDF header found'')),
      writable = (\<lambda>p. True),
      base64 = (\<lambda>b. b)\<rparr>"

definition sample_server :: server where
  "sample_server =
     \<lparr>files = [''/pdf/good.pdf'' \<mapsto> Binary ''good'',
               ''/pdf/torn.pdf'' \<mapsto> Binary ''torn'',
               ''/pdf/corrupt.pdf'' \<mapsto> Binary ''junk'',
               ''/pdf-pages/good/page-2.pdf'' \<mapsto> Binary ''%PDF page 2''],
      dirs = {''/pdf'', ''/pdf-pages'', ''/pdf-pages/good''},
      clock_reads = 0, status_log = [], copy_log = []\<rparr>"

text \<open>
  The same server while a job for the first document is under way: the status file says
  that two pages are done.
\<close>

definition busy_server :: server where
  "busy_server =
     sample_server\<lparr>files := (files sample_server)
        (''/pdf-pages/good/status.json'' \<mapsto>
           StatusJson \<lparr>status = Processing, totalPages = 3, processedPages = 2,
                       startedAt = 900, updatedAt = Some 950, completedAt = None,
                       error = None\<rparr>)\<rparr>"

text \<open>
  The same server right after a start request for the document \<open>/pdf/<fileId>.pdf\<close>
  has been answered: the directory of the pages exists and the status file holds the
  first record.
\<close>

definition started_server :: "string \<Rightarrow> server" where
  "started_server fileId =
     sample_server
       \<lparr>files := (files sample_server)
          (join (pages_dir fileId) ''status.json'' \<mapsto>
             StatusJson \<lparr>status = Processing, totalPages = 0, processedPages = 0,
                         startedAt = 1000, updatedAt = None, completedAt = None,
                         error = None\<rparr>),
        dirs := insert (pages_dir fileId) (dirs sample_server),
        clock_reads := Suc 0,
        status_log := [\<lparr>status = Processing, totalPages = 0, processedPages = 0,
                        startedAt = 1000, updatedAt = None, completedAt = None,
                        error = None\<rparr>]\<rparr>"

section \<open>The page resolver: range requests\<close>

lemma check_pages_eq:
  "check_pages st fileId ps (pages, ex) =
     (pages @ map (\<lambda>p. \<lparr>pageNumber = p, url = preProcessedPageUrl fileId p, isPreProcessed = True\<rparr>)
                (filter (\<lambda>p. existsSync st (preProcessedPageUrl fileId p)) ps),
      ex @ filter (\<lambda>p. \<not> existsSync st (preProcessedPageUrl fileId p)) ps)"
  by (induction ps arbitrary: pages ex) simp_all

lemma extract_pages_frame:
  "files (snd (extract_pages e d ps pages st)) = files st
   \<and> dirs (snd (extract_pages e d ps pages st)) = dirs st
   \<and> status_log (snd (extract_pages e d ps pages st)) = status_log st
   \<and> clock_reads (snd (extract_pages e d ps pages st)) = clock_reads st"
  by (induction ps arbitrary: pages st) (simp_all add: Let_def split: sum.splits)

lemma extract_pages_ok:
  "\<forall>p\<in>set ps. \<exists>b. copyPage d (p - 1) = Inr b \<Longrightarrow>
   \<exists>pages'. fst (extract_pages e d ps pages st) = Inr pages'
      \<and> map pageNumber pages' = map pageNumber pages @ ps"
proof (induction ps arbitrary: pages st)
  case Nil
  then show ?case by simp
next
  case (Cons p ps)
  from Cons.prems obtain b where b: "copyPage d (p - 1) = Inr b" by auto
  from Cons.prems have rest: "\<forall>q\<in>set ps. \<exists>b. copyPage d (q - 1) = Inr b" by simp
  define entry where "entry = \<lparr>pageNumber = p,
      url = ''data:application/pdf;base64,'' @ base64 e b, isPreProcessed = False\<rparr>"
  from Cons.IH [OF rest, of "pages @ [entry]" "st\<lparr>copy_log := copy_log st @ [p - 1]\<rparr>"]
  obtain pages' where
    "fst (extract_pages e d ps (pages @ [entry]) (st\<lparr>copy_log := copy_log st @ [p - 1]\<rparr>))
       = Inr pages'"
    "map pageNumber pages' = map pageNumber (pages @ [entry]) @ ps"
    by blast
  then show ?case
    using b by (simp add: Let_def entry_def)
qed

lemma extract_pages_throws:
  "\<exists>p\<in>set ps. \<forall>b. copyPage d (p - 1) \<noteq> Inr b \<Longrightarrow>
   \<exists>err. fst (extract_pages e d ps pages st) = Inl err"
proof (induction ps arbitrary: pages st)
  case Nil
  then show ?case by simp
next
  case (Cons p ps)
  show ?case
  proof (cases "copyPage d (p - 1)")
    case (Inl err)
    then show ?thesis by (simp add: Let_def)
  next
    case (Inr b)
    with Cons.prems have "\<exists>q\<in>set ps. \<forall>b. copyPage d (q - 1) \<noteq> Inr b" by auto
    from Cons.IH [OF this] Inr show ?thesis by (simp add: Let_def)
  qed
qed

lemma sorted_page_numbers:
  assumes "map pageNumber pages = filter P [f..t] @ filter (\<lambda>p. \<not> P p) [f..t]"
  shows "map pageNumber (sort_key pageNumber pages) = [f..t]"
proof -
  let ?ys = "map pageNumber (sort_key pageNumber pages)"
  have s: "sorted ?ys" by (rule sorted_sort_key)
  have "distinct (map pageNumber pages)"
    unfolding assms by (auto simp: distinct_filter)
  then have d: "distinct ?ys"
    by (simp add: distinct_map)
  have "set ?ys = set (map pageNumber pages)" by simp
  also have "\<dots> = set [f..t]" unfolding assms by auto
  finally have e: "set ?ys = set [f..t]" .
  show ?thesis
    by (rule sorted_distinct_set_unique [OF s d _ _ e]) simp_all
qed


lemma reach:
  assumes "startsWith u ''/pdf/''" "readFileSync st u = Inr src" "PDFDocument_load e src = Inr doc"
  shows "POST_page e st (Some u) pn (Some f) (Some t) = range_request e st u doc f t"
    and "fromPage = None \<or> toPage = None \<Longrightarrow>
         POST_page e st (Some u) pn fromPage toPage = single_request e st u doc pn"
  using assms
  by (auto simp: POST_page_def existsSync_def readFileSync_def startsWith_def
           split: option.splits)

lemma range_result:
  assumes "startsWith u ''/pdf/''" "readFileSync st u = Inr src" "PDFDocument_load e src = Inr doc"
    and "1 \<le> f" "f \<le> t" "t \<le> int (pageCount doc)"
  shows "if (\<forall>p\<in>{f..t}. \<not> existsSync st (preProcessedPageUrl (resolver_fileId u) p)
                 \<longrightarrow> (\<exists>b. copyPage doc (p - 1) = Inr b))
         then (\<exists>pages. fst (POST_page e st (Some u) pn (Some f) (Some t))
                          = Pages pages (int (pageCount doc)) f t
                 \<and> length pages = nat (t - f + 1)
                 \<and> map pageNumber pages = [f..t]
                 \<and> sorted (map pageNumber pages) \<and> distinct (map pageNumber pages)
                 \<and> set (map pageNumber pages) = {f..t})
         else fst (POST_page e st (Some u) pn (Some f) (Some t)) = extract_failed"
proof -
  let ?E = "\<lambda>p. existsSync st (preProcessedPageUrl (resolver_fileId u) p)"
  let ?hits = "map (\<lambda>p. \<lparr>pageNumber = p, url = preProcessedPageUrl (resolver_fileId u) p,
                          isPreProcessed = True\<rparr>) (filter ?E [f..t])"
  let ?miss = "filter (\<lambda>p. \<not> ?E p) [f..t]"
  have valid: "\<not> (f < 1 \<or> t < 1 \<or> f > int (pageCount doc) \<or> t > int (pageCount doc) \<or> f > t)"
    using assms(4-6) by linarith
  have rr: "fst (POST_page e st (Some u) pn (Some f) (Some t)) =
        (case fst (extract_pages e doc ?miss ?hits st) of
           Inl err \<Rightarrow> extract_failed
         | Inr pages1 \<Rightarrow> Pages (sort_key pageNumber pages1) (int (pageCount doc)) f t)"
    unfolding reach(1) [OF assms(1-3)] range_request_def Let_def
    using valid check_pages_eq [of st "resolver_fileId u" "[f..t]" "[]" "[]"]
    by (simp split: prod.splits sum.splits)
  show ?thesis
  proof (cases "\<forall>p\<in>{f..t}. \<not> ?E p \<longrightarrow> (\<exists>b. copyPage doc (p - 1) = Inr b)")
    case True
    then have "\<forall>p\<in>set ?miss. \<exists>b. copyPage doc (p - 1) = Inr b" by simp
    from extract_pages_ok [OF this, of e ?hits st]
    obtain pages1 where p1: "fst (extract_pages e doc ?miss ?hits st) = Inr pages1"
      and nums: "map pageNumber pages1 = map pageNumber ?hits @ ?miss" by blast
    have "map pageNumber ?hits = filter ?E [f..t]" by (simp add: comp_def)
    with nums have "map pageNumber pages1 = filter ?E [f..t] @ filter (\<lambda>p. \<not> ?E p) [f..t]"
      by simp
    then have eq: "map pageNumber (sort_key pageNumber pages1) = [f..t]"
      by (rule sorted_page_numbers)
    have len: "length (sort_key pageNumber pages1) = nat (t - f + 1)"
      using arg_cong [OF eq, of length] by simp
    have resp: "fst (POST_page e st (Some u) pn (Some f) (Some t))
                  = Pages (sort_key pageNumber pages1) (int (pageCount doc)) f t"
      using rr p1 by simp
    have props: "map pageNumber (sort_key pageNumber pages1) = [f..t]
        \<and> sorted (map pageNumber (sort_key pageNumber pages1))
        \<and> distinct (map pageNumber (sort_key pageNumber pages1))
        \<and> set (map pageNumber (sort_key pageNumber pages1)) = {f..t}"
      unfolding eq by simp
    have "\<exists>pages. fst (POST_page e st (Some u) pn (Some f) (Some t))
                          = Pages pages (int (pageCount doc)) f t
                 \<and> length pages = nat (t - f + 1)
                 \<and> map pageNumber pages = [f..t]
                 \<and> sorted (map pageNumber pages) \<and> distinct (map pageNumber pages)
                 \<and> set (map pageNumber pages) = {f..t}"
      using resp len props by blast
    with True show ?thesis by (subst if_P) blast+
  next
    case False
    then have "\<exists>p\<in>set ?miss. \<forall>b. copyPage doc (p - 1) \<noteq> Inr b" by auto
    from extract_pages_throws [OF this, of e ?hits st]
    obtain err where "fst (extract_pages e doc ?miss ?hits st) = Inl err" by blast
    with rr have "fst (POST_page e st (Some u) pn (Some f) (Some t)) = extract_failed"
      by simp
    with False show ?thesis by (subst if_not_P) blast+
  qed
qed

lemma range_invalid:
  assumes "startsWith u ''/pdf/''" "readFileSync st u = Inr src" "PDFDocument_load e src = Inr doc"
    and "f < 1 \<or> t > int (pageCount doc) \<or> f > t"
  shows "POST_page e st (Some u) pn (Some f) (Some t) = (JsonError ''Invalid page range'' 400, st)"
proof -
  from assms(4)
  have "f < 1 \<or> t < 1 \<or> f > int (pageCount doc) \<or> t > int (pageCount doc) \<or> f > t"
    by linarith
  then show ?thesis
    unfolding reach(1) [OF assms(1-3)] range_request_def Let_def by simp
qed

lemma sample_reach:
  "startsWith ''/pdf/good.pdf'' ''/pdf/''"
  "readFileSync sample_server ''/pdf/good.pdf'' = Inr (Binary ''good'')"
  "PDFDocument_load sample_env (Binary ''good'') = Inr good_doc"
  by (simp_all add: startsWith_def readFileSync_def sample_server_def sample_env_def)

text \<open>
  Claim C1. For every valid range request (\<open>1 \<le> fromPage \<le> toPage \<le> totalPages\<close>) on a
  local document that loads, the answer holds exactly \<open>toPage - fromPage + 1\<close> entries,
  sorted ascending by page number, with no page number twice and none missing: the page
  numbers of the entries are \<open>fromPage, \<dots>, toPage\<close> in this order, whichever pages had a
  pre-split file. This is the answer whenever every page that has no pre-split file can
  be extracted; if one of them cannot, the request as a whole fails with status 500.
\<close>

theorem range_pages_complete:
  assumes "startsWith u ''/pdf/''" "readFileSync st u = Inr src" "PDFDocument_load e src = Inr doc"
    and "1 \<le> f" "f \<le> t" "t \<le> int (pageCount doc)"
  shows "if (\<forall>p\<in>{f..t}. \<not> existsSync st (preProcessedPageUrl (resolver_fileId u) p)
                 \<longrightarrow> (\<exists>b. copyPage doc (p - 1) = Inr b))
         then (\<exists>pages. fst (POST_page e st (Some u) pn (Some f) (Some t))
                          = Pages pages (int (pageCount doc)) f t
                 \<and> length pages = nat (t - f + 1)
                 \<and> map pageNumber pages = [f..t]
                 \<and> sorted (map pageNumber pages) \<and> distinct (map pageNumber pages)
                 \<and> set (map pageNumber pages) = {f..t})
         else fst (POST_page e st (Some u) pn (Some f) (Some t)) = extract_failed"
  using assms by (rule range_result)

theorem range_pages_complete_witness:
  "\<exists>pages. fst (POST_page sample_env sample_server (Some ''/pdf/good.pdf'') None (Some 1) (Some 3))
              = Pages pages 3 1 3
     \<and> length pages = 3 \<and> map pageNumber pages = [1..3]"
proof -
  have ok: "\<forall>p\<in>{1..3}. \<not> existsSync sample_server
                 (preProcessedPageUrl (resolver_fileId ''/pdf/good.pdf'') p)
               \<longrightarrow> (\<exists>b. copyPage good_doc (p - 1) = Inr b)"
    by (simp add: good_doc_def)
  have b: "(1::int) \<le> 1" "(1::int) \<le> 3" "(3::int) \<le> int (pageCount good_doc)"
    by (simp_all add: good_doc_def)
  from range_pages_complete [OF sample_reach b, of None] ok
  have "\<exists>pages. fst (POST_page sample_env sample_server (Some ''/pdf/good.pdf'') None
                        (Some 1) (Some 3)) = Pages pages 3 1 3
     \<and> length pages = 3 \<and> map pageNumber pages = [1..3]
     \<and> sorted (map pageNumber pages) \<and> distinct (map pageNumber pages)
     \<and> set (map pageNumber pages) = {1..3}"
    by (simp add: good_doc_def)
  then show ?thesis by blast
qed

text \<open>
  Claim C8. A range request with both bounds, on a local document that loads, is answered
  with status 400 if and only if \<open>fromPage < 1\<close>, or \<open>toPage > totalPages\<close>, or
  \<open>fromPage > toPage\<close>. Every other range is processed: the answer is the list of pages,
  or the failure of an extraction (status 500).
\<close>

theorem range_validation:
  assumes "startsWith u ''/pdf/''" "readFileSync st u = Inr src" "PDFDocument_load e src = Inr doc"
  shows "((\<exists>msg. fst (POST_page e st (Some u) pn (Some f) (Some t)) = JsonError msg 400)
            \<longleftrightarrow> (f < 1 \<or> t > int (pageCount doc) \<or> f > t))
       \<and> (\<not> (f < 1 \<or> t > int (pageCount doc) \<or> f > t) \<longrightarrow>
            (\<exists>pages. fst (POST_page e st (Some u) pn (Some f) (Some t))
                        = Pages pages (int (pageCount doc)) f t)
            \<or> fst (POST_page e st (Some u) pn (Some f) (Some t)) = extract_failed)"
proof (cases "f < 1 \<or> t > int (pageCount doc) \<or> f > t")
  case True
  from range_invalid [OF assms True, of pn] True show ?thesis by simp
next
  case False
  then have b: "1 \<le> f" "f \<le> t" "t \<le> int (pageCount doc)" by simp_all
  have "(\<exists>pages. fst (POST_page e st (Some u) pn (Some f) (Some t))
                        = Pages pages (int (pageCount doc)) f t)
        \<or> fst (POST_page e st (Some u) pn (Some f) (Some t)) = extract_failed"
    using range_result [OF assms b, of pn] by (auto split: if_splits)
  with False show ?thesis by (auto simp: extract_failed_def)
qed

theorem range_validation_witness:
  "fst (POST_page sample_env sample_server (Some ''/pdf/good.pdf'') None (Some 2) (Some 4))
     = JsonError ''Invalid page range'' 400
   \<and> (\<exists>pages. fst (POST_page sample_env sample_server (Some ''/pdf/good.pdf'') None
                       (Some 2) (Some 3)) = Pages pages 3 2 3)"
proof -
  have a: "fst (POST_page sample_env sample_server (Some ''/pdf/good.pdf'') None (Some 2) (Some 4))
     = JsonError ''Invalid page range'' 400"
    by (simp add: POST_page_def sample_env_def sample_server_def startsWith_def existsSync_def
        readFileSync_def range_request_def good_doc_def)
  have "fst (POST_page sample_env sample_server (Some ''/pdf/good.pdf'') None (Some 2) (Some 3))
          \<noteq> extract_failed"
    by (simp add: POST_page_def sample_env_def sample_server_def startsWith_def existsSync_def
        readFileSync_def range_request_def good_doc_def extract_failed_def upto.simps
        preProcessedPageUrl_def resolver_fileId_def split_pop_def join_def pages_dir_def
        page_name_def number_string_def digits.simps Let_def)
  with range_validation [OF sample_reach, of None 2 3] a show ?thesis
    by (simp add: good_doc_def)
qed

section \<open>The page resolver: the single-page path\<close>

text \<open>
  Claim C10. When exactly one of \<open>fromPage\<close> and \<open>toPage\<close> is supplied and \<open>pageNumber\<close> is
  not, the range branch is not taken: the request is answered with status 400 and the
  message \<open>Missing pageNumber or page range\<close>, and the state is the one before the request,
  so no page index was handed to \<open>copyPages\<close>.
\<close>

theorem half_range_missing:
  assumes "startsWith u ''/pdf/''" "readFileSync st u = Inr src" "PDFDocument_load e src = Inr doc"
    and "(fromPage = None \<and> toPage \<noteq> None) \<or> (fromPage \<noteq> None \<and> toPage = None)"
  shows "POST_page e st (Some u) None fromPage toPage
           = (JsonError ''Missing pageNumber or page range'' 400, st)"
proof -
  from assms(4) have "fromPage = None \<or> toPage = None" by blast
  from reach(2) [OF assms(1-3) this, of None] show ?thesis
    by (simp add: single_request_def)
qed

theorem half_range_missing_witness:
  "POST_page sample_env sample_server (Some ''/pdf/good.pdf'') None (Some 1) None
     = (JsonError ''Missing pageNumber or page range'' 400, sample_server)
   \<and> copy_log (snd (POST_page sample_env sample_server (Some ''/pdf/good.pdf'') None
                       (Some 1) None)) = []"
  using half_range_missing [OF sample_reach, of "Some 1" None]
  by (simp add: sample_server_def)

section \<open>The page resolver writes nothing\<close>

lemma extract_pages_entries:
  "fst (extract_pages e d ps pages st) = Inr pages' \<Longrightarrow> en \<in> set pages' \<Longrightarrow>
   en \<in> set pages
   \<or> (pageNumber en \<in> set ps \<and> \<not> isPreProcessed en
      \<and> (\<exists>b. copyPage d (pageNumber en - 1) = Inr b
             \<and> url en = ''data:application/pdf;base64,'' @ base64 e b))"
proof (induction ps arbitrary: pages st)
  case Nil
  then show ?case by simp
next
  case (Cons p ps)
  show ?case
  proof (cases "copyPage d (p - 1)")
    case (Inl err)
    with Cons.prems show ?thesis by (simp add: Let_def)
  next
    case (Inr b)
    define entry where "entry = \<lparr>pageNumber = p,
        url = ''data:application/pdf;base64,'' @ base64 e b, isPreProcessed = False\<rparr>"
    from Cons.prems(1) Inr
    have "fst (extract_pages e d ps (pages @ [entry]) (st\<lparr>copy_log := copy_log st @ [p - 1]\<rparr>))
            = Inr pages'"
      by (simp add: Let_def entry_def)
    from Cons.IH [OF this Cons.prems(2)]
    have "en \<in> set (pages @ [entry])
      \<or> (pageNumber en \<in> set ps \<and> \<not> isPreProcessed en
         \<and> (\<exists>b. copyPage d (pageNumber en - 1) = Inr b
             \<and> url en = ''data:application/pdf;base64,'' @ base64 e b))" .
    moreover have "pageNumber entry = p" "\<not> isPreProcessed entry"
      "url entry = ''data:application/pdf;base64,'' @ base64 e b"
      by (simp_all add: entry_def)
    ultimately show ?thesis using Inr by auto
  qed
qed


lemma range_request_frame:
  "files (snd (range_request e st u doc f t)) = files st
   \<and> dirs (snd (range_request e st u doc f t)) = dirs st
   \<and> status_log (snd (range_request e st u doc f t)) = status_log st"
proof -
  obtain pages ex where c: "check_pages st (resolver_fileId u) [f..t] ([], []) = (pages, ex)"
    by (cases "check_pages st (resolver_fileId u) [f..t] ([], [])")
  obtain r st1 where x: "extract_pages e doc ex pages st = (r, st1)"
    by (cases "extract_pages e doc ex pages st")
  have "snd (range_request e st u doc f t) = st \<or> snd (range_request e st u doc f t) = st1"
    using c x by (cases r) (simp_all add: range_request_def Let_def)
  moreover from extract_pages_frame [of e doc ex pages st] x
  have "files st1 = files st \<and> dirs st1 = dirs st \<and> status_log st1 = status_log st"
    by simp
  ultimately show ?thesis by metis
qed

lemma single_request_frame:
  "files (snd (single_request e st u doc pn)) = files st
   \<and> dirs (snd (single_request e st u doc pn)) = dirs st
   \<and> status_log (snd (single_request e st u doc pn)) = status_log st"
proof (cases pn)
  case None
  then show ?thesis by (simp add: single_request_def)
next
  case (Some n)
  then show ?thesis
    by (cases "copyPage doc (n - 1)") (simp_all add: single_request_def Let_def)
qed

lemma POST_page_state:
  "snd (POST_page e st pdfUrl pn fp tp) = st
   \<or> (\<exists>u doc f t. snd (POST_page e st pdfUrl pn fp tp) = snd (range_request e st u doc f t))
   \<or> (\<exists>u doc. snd (POST_page e st pdfUrl pn fp tp) = snd (single_request e st u doc pn))"
proof (cases pdfUrl)
  case None
  then show ?thesis by (simp add: POST_page_def)
next
  case (Some u)
  show ?thesis
  proof (cases "u = [] \<or> \<not> startsWith u ''/pdf/'' \<or> \<not> existsSync st u")
    case True
    with Some show ?thesis by (auto simp: POST_page_def)
  next
    case False
    show ?thesis
    proof (cases "readFileSync st u")
      case (Inl err)
      with Some False show ?thesis by (simp add: POST_page_def)
    next
      case (Inr src)
      show ?thesis
      proof (cases "PDFDocument_load e src")
        case (Inl err)
        with Some False Inr show ?thesis by (simp add: POST_page_def)
      next
        case doc: (Inr doc)
        show ?thesis
        proof (cases "\<exists>f t. fp = Some f \<and> tp = Some t")
          case True
          then obtain f t where "fp = Some f" "tp = Some t" by blast
          with Some False Inr doc
          have "snd (POST_page e st pdfUrl pn fp tp) = snd (range_request e st u doc f t)"
            by (simp add: POST_page_def)
          then show ?thesis by blast
        next
          case no: False
          with Some False Inr doc
          have "snd (POST_page e st pdfUrl pn fp tp) = snd (single_request e st u doc pn)"
            by (cases fp; cases tp) (simp_all add: POST_page_def)
          then show ?thesis by blast
        qed
      qed
    qed
  qed
qed

lemma POST_page_frame:
  "files (snd (POST_page e st pdfUrl pn fp tp)) = files st
   \<and> dirs (snd (POST_page e st pdfUrl pn fp tp)) = dirs st
   \<and> status_log (snd (POST_page e st pdfUrl pn fp tp)) = status_log st"
  using POST_page_state [of e st pdfUrl pn fp tp] range_request_frame [of e st]
    single_request_frame [of e st]
  by metis


lemma range_entries:
  assumes "fst (range_request e st u doc f t) = Pages pages n f' t'"
    and "en \<in> set pages" "\<not> isPreProcessed en"
  shows "\<not> existsSync st (preProcessedPageUrl (resolver_fileId u) (pageNumber en))
       \<and> (\<exists>b. copyPage doc (pageNumber en - 1) = Inr b
              \<and> url en = ''data:application/pdf;base64,'' @ base64 e b)"
proof -
  let ?E = "\<lambda>p. existsSync st (preProcessedPageUrl (resolver_fileId u) p)"
  let ?hits = "map (\<lambda>p. \<lparr>pageNumber = p, url = preProcessedPageUrl (resolver_fileId u) p,
                          isPreProcessed = True\<rparr>) (filter ?E [f..t])"
  let ?miss = "filter (\<lambda>p. \<not> ?E p) [f..t]"
  have c: "check_pages st (resolver_fileId u) [f..t] ([], []) = (?hits, ?miss)"
    using check_pages_eq [of st "resolver_fileId u" "[f..t]" "[]" "[]"] by simp
  obtain r st1 where x: "extract_pages e doc ?miss ?hits st = (r, st1)"
    by (cases "extract_pages e doc ?miss ?hits st")
  have valid: "\<not> (f < 1 \<or> t < 1 \<or> f > int (pageCount doc) \<or> t > int (pageCount doc) \<or> f > t)"
  proof
    assume "f < 1 \<or> t < 1 \<or> f > int (pageCount doc) \<or> t > int (pageCount doc) \<or> f > t"
    then have "fst (range_request e st u doc f t) = JsonError ''Invalid page range'' 400"
      by (simp add: range_request_def Let_def)
    with assms(1) show False by simp
  qed
  obtain pages1 where r: "r = Inr pages1" and srt: "pages = sort_key pageNumber pages1"
  proof (cases r)
    case (Inl err)
    with valid c x have "fst (range_request e st u doc f t) = extract_failed"
      by (simp add: range_request_def Let_def)
    with assms(1) show ?thesis by (simp add: extract_failed_def)
  next
    case (Inr pages1)
    with valid c x have "fst (range_request e st u doc f t)
        = Pages (sort_key pageNumber pages1) (int (pageCount doc)) f t"
      by (simp add: range_request_def Let_def)
    with assms(1) Inr that show ?thesis by simp
  qed
  from x r have p1: "fst (extract_pages e doc ?miss ?hits st) = Inr pages1" by simp
  from assms(2) srt have "en \<in> set pages1" by simp
  from extract_pages_entries [OF p1 this] assms(3)
  have "pageNumber en \<in> set ?miss
      \<and> (\<exists>b. copyPage doc (pageNumber en - 1) = Inr b
             \<and> url en = ''data:application/pdf;base64,'' @ base64 e b)"
    by auto
  then show ?thesis by simp
qed

text \<open>
  Claim C9. No page-fetch request changes the files or the directories below \<open>public/\<close>,
  and none writes a status record. A single page that has no pre-split file is answered
  with the extracted bytes as the body, and in the answer to a range request every entry
  that is not pre-processed is a page without a pre-split file, carrying its extracted
  bytes in a data URL.
\<close>

theorem resolver_writes_nothing:
  "files (snd (POST_page e st pdfUrl pn fp tp)) = files st
   \<and> dirs (snd (POST_page e st pdfUrl pn fp tp)) = dirs st
   \<and> status_log (snd (POST_page e st pdfUrl pn fp tp)) = status_log st
   \<and> (\<forall>u src doc n b.
        pdfUrl = Some u \<and> startsWith u ''/pdf/'' \<and> readFileSync st u = Inr src
        \<and> PDFDocument_load e src = Inr doc \<and> (fp = None \<or> tp = None)
        \<and> pn = Some n \<and> 1 \<le> n \<and> n \<le> int (pageCount doc)
        \<and> \<not> existsSync st (preProcessedPageUrl (resolver_fileId u) n)
        \<and> copyPage doc (n - 1) = Inr b
        \<longrightarrow> fst (POST_page e st pdfUrl pn fp tp) = PdfBody b)
   \<and> (\<forall>u src doc f t pages n f' t' en.
        pdfUrl = Some u \<and> startsWith u ''/pdf/'' \<and> readFileSync st u = Inr src
        \<and> PDFDocument_load e src = Inr doc \<and> fp = Some f \<and> tp = Some t
        \<and> fst (POST_page e st pdfUrl pn fp tp) = Pages pages n f' t'
        \<and> en \<in> set pages \<and> \<not> isPreProcessed en
        \<longrightarrow> \<not> existsSync st (preProcessedPageUrl (resolver_fileId u) (pageNumber en))
            \<and> (\<exists>b. copyPage doc (pageNumber en - 1) = Inr b
                   \<and> url en = ''data:application/pdf;base64,'' @ base64 e b))"
proof (intro conjI allI impI)
  show "files (snd (POST_page e st pdfUrl pn fp tp)) = files st"
    "dirs (snd (POST_page e st pdfUrl pn fp tp)) = dirs st"
    "status_log (snd (POST_page e st pdfUrl pn fp tp)) = status_log st"
    using POST_page_frame [of e st pdfUrl pn fp tp] by simp_all
next
  fix u src doc n b
  assume a: "pdfUrl = Some u \<and> startsWith u ''/pdf/'' \<and> readFileSync st u = Inr src
        \<and> PDFDocument_load e src = Inr doc \<and> (fp = None \<or> tp = None)
        \<and> pn = Some n \<and> 1 \<le> n \<and> n \<le> int (pageCount doc)
        \<and> \<not> existsSync st (preProcessedPageUrl (resolver_fileId u) n)
        \<and> copyPage doc (n - 1) = Inr b"
  then have sr: "POST_page e st (Some u) pn fp tp = single_request e st u doc pn"
    using reach(2) [of u st src e doc fp tp pn] by blast
  from a have eqs: "pdfUrl = Some u" "pn = Some n" by blast+
  from a have "fst (single_request e st u doc (Some n)) = PdfBody b"
    by (simp add: single_request_def Let_def)
  then show "fst (POST_page e st pdfUrl pn fp tp) = PdfBody b"
    using sr unfolding eqs by simp
next
  fix u src doc f t pages n f' t' en
  assume a: "pdfUrl = Some u \<and> startsWith u ''/pdf/'' \<and> readFileSync st u = Inr src
        \<and> PDFDocument_load e src = Inr doc \<and> fp = Some f \<and> tp = Some t
        \<and> fst (POST_page e st pdfUrl pn fp tp) = Pages pages n f' t'
        \<and> en \<in> set pages \<and> \<not> isPreProcessed en"
  then have rr: "POST_page e st (Some u) pn (Some f) (Some t) = range_request e st u doc f t"
    using reach(1) [of u st src e doc pn f t] by blast
  from a have eqs: "pdfUrl = Some u" "fp = Some f" "tp = Some t"
    and pg: "fst (POST_page e st pdfUrl pn fp tp) = Pages pages n f' t'"
    by blast+
  from pg have "fst (range_request e st u doc f t) = Pages pages n f' t'"
    unfolding eqs rr .
  from range_entries [OF this] a
  show "\<not> existsSync st (preProcessedPageUrl (resolver_fileId u) (pageNumber en))"
    "\<exists>b. copyPage doc (pageNumber en - 1) = Inr b
        \<and> url en = ''data:application/pdf;base64,'' @ base64 e b"
    by blast+
qed

lemma page1_miss:
  "\<not> existsSync sample_server (preProcessedPageUrl (resolver_fileId ''/pdf/good.pdf'') 1)"
  by code_simp

theorem resolver_writes_nothing_witness:
  "files (snd (POST_page sample_env sample_server (Some ''/pdf/good.pdf'') (Some 1) None None))
     = files sample_server
   \<and> fst (POST_page sample_env sample_server (Some ''/pdf/good.pdf'') (Some 1) None None)
       = PdfBody ''%PDF page 1''"
proof -
  have b: "copyPage good_doc (1 - 1) = Inr ''%PDF page 1''"
    by (simp add: good_doc_def number_string_def digits.simps)
  have d: "(1::int) \<le> int (pageCount good_doc)" by (simp add: good_doc_def)
  from resolver_writes_nothing [of sample_env sample_server "Some ''/pdf/good.pdf''"
      "Some 1" None None] sample_reach page1_miss b d
  show ?thesis by blast
qed

section \<open>The two derivations of the document identifier\<close>

text \<open>
  Claim C2. The start handler derives the identifier with \<open>path.basename(pdfPath, '.pdf')\<close>,
  which removes \<open>.pdf\<close> at the end of the last path segment; the resolver removes the
  first \<open>.pdf\<close> it finds in that segment. For a file name that contains \<open>.pdf\<close> before
  its extension the two identifiers differ: the job writes its pages into one directory
  and the resolver looks for them in another.
\<close>

theorem fileId_mismatch:
  "basename ''/pdf/report.pdf-v2.pdf'' ''.pdf'' = ''report.pdf-v2''
   \<and> resolver_fileId ''/pdf/report.pdf-v2.pdf'' = ''report-v2.pdf''
   \<and> join (pages_dir (basename ''/pdf/report.pdf-v2.pdf'' ''.pdf'')) (page_name 1)
       = ''/pdf-pages/report.pdf-v2/page-1.pdf''
   \<and> preProcessedPageUrl (resolver_fileId ''/pdf/report.pdf-v2.pdf'') 1
       = ''/pdf-pages/report-v2.pdf/page-1.pdf''"
  by code_simp

section \<open>The job runner\<close>

subsection \<open>The writes to the status file\<close>

lemma page_path_not_status: "join d (page_name n) \<noteq> join d ''status.json''"
  by (simp add: join_def page_name_def)

lemma readStatus_present:
  "files st sp = Some (StatusJson r) \<Longrightarrow> readStatus st sp = Inr r"
  by (simp add: readStatus_def readFileSync_def)

lemma recordPageDone_present:
  assumes "files st sp = Some (StatusJson r)" "writable e sp"
  shows "recordPageDone e sp k st =
           (None, st\<lparr>clock_reads := Suc (clock_reads st),
                     files := (files st)(sp \<mapsto> StatusJson
                        (r\<lparr>processedPages := k, updatedAt := Some (now e (clock_reads st))\<rparr>)),
                     status_log := status_log st @
                        [r\<lparr>processedPages := k, updatedAt := Some (now e (clock_reads st))\<rparr>]\<rparr>)"
  using assms
  by (simp add: recordPageDone_def readStatus_present new_Date_def writeFileSync_def)

lemma process_page_fails:
  assumes "\<not> page_succeeds e doc d i"
  shows "process_page e doc d sp i st = st\<lparr>copy_log := copy_log st @ [int i]\<rparr>"
  using assms
  by (auto simp: process_page_def page_succeeds_def writeFileSync_def Let_def
           split: sum.splits)

lemma process_page_succeeds:
  assumes "page_succeeds e doc d i" "files st (join d ''status.json'') = Some (StatusJson r)"
    "writable e (join d ''status.json'')"
  shows "\<exists>b. copyPage doc (int i) = Inr b \<and>
     process_page e doc d (join d ''status.json'') i st =
       st\<lparr>copy_log := copy_log st @ [int i],
          clock_reads := Suc (clock_reads st),
          files := (files st)(join d (page_name (int (i + 1))) \<mapsto> Binary b,
                     join d ''status.json'' \<mapsto> StatusJson
                        (r\<lparr>processedPages := Suc i, updatedAt := Some (now e (clock_reads st))\<rparr>)),
          status_log := status_log st @
                        [r\<lparr>processedPages := Suc i, updatedAt := Some (now e (clock_reads st))\<rparr>]\<rparr>"
proof -
  from assms(1) obtain b where b: "copyPage doc (int i) = Inr b"
    and w: "writable e (join d (page_name (int (i + 1))))"
    by (auto simp: page_succeeds_def split: sum.splits)
  let ?st2 = "st\<lparr>copy_log := copy_log st @ [int i],
                 files := (files st)(join d (page_name (int (i + 1))) \<mapsto> Binary b)\<rparr>"
  have "files ?st2 (join d ''status.json'') = Some (StatusJson r)"
    using assms(2) page_path_not_status [of d "int (i + 1)"] by simp
  from recordPageDone_present [OF this assms(3), of "Suc i"] b w
  show ?thesis
    by (simp add: process_page_def writeFileSync_def Let_def)
qed


lemma same_job_refl: "same_job r r"
  by (simp add: same_job_def)

lemma page_loop:
  assumes "files st (join d ''status.json'') = Some (StatusJson r)"
    and "writable e (join d ''status.json'')"
  shows "\<exists>r' ws.
     files (fold (process_page e doc d (join d ''status.json'')) [0..<n] st)
        (join d ''status.json'') = Some (StatusJson r')
     \<and> status_log (fold (process_page e doc d (join d ''status.json'')) [0..<n] st)
          = status_log st @ ws
     \<and> map processedPages ws = map Suc (filter (page_succeeds e doc d) [0..<n])
     \<and> processedPages r' = last (processedPages r # map processedPages ws)
     \<and> same_job r r' \<and> (\<forall>w\<in>set ws. same_job r w)
     \<and> copy_log (fold (process_page e doc d (join d ''status.json'')) [0..<n] st)
          = copy_log st @ map int [0..<n]
     \<and> dirs (fold (process_page e doc d (join d ''status.json'')) [0..<n] st) = dirs st"
proof (induction n)
  case 0
  show ?case using assms(1) by (simp add: same_job_refl)
next
  case (Suc n)
  let ?sp = "join d ''status.json''"
  let ?stn = "fold (process_page e doc d ?sp) [0..<n] st"
  from Suc.IH obtain r' ws where
    f: "files ?stn ?sp = Some (StatusJson r')"
    and l: "status_log ?stn = status_log st @ ws"
    and m: "map processedPages ws = map Suc (filter (page_succeeds e doc d) [0..<n])"
    and p: "processedPages r' = last (processedPages r # map processedPages ws)"
    and j: "same_job r r'" "\<forall>w\<in>set ws. same_job r w"
    and c: "copy_log ?stn = copy_log st @ map int [0..<n]"
    and dd: "dirs ?stn = dirs st"
    by blast
  have step: "fold (process_page e doc d ?sp) [0..<Suc n] st = process_page e doc d ?sp n ?stn"
    by simp
  show ?case
  proof (cases "page_succeeds e doc d n")
    case False
    from process_page_fails [OF False, of ?sp ?stn]
    have eq: "process_page e doc d ?sp n ?stn = ?stn\<lparr>copy_log := copy_log ?stn @ [int n]\<rparr>" .
    show ?thesis
      unfolding step eq using False f l m p j c dd
      by (intro exI [of _ r'] exI [of _ ws]) simp
  next
    case True
    let ?w = "r'\<lparr>processedPages := Suc n, updatedAt := Some (now e (clock_reads ?stn))\<rparr>"
    from process_page_succeeds [OF True f assms(2)]
    obtain b where eq: "process_page e doc d ?sp n ?stn =
       ?stn\<lparr>copy_log := copy_log ?stn @ [int n],
          clock_reads := Suc (clock_reads ?stn),
          files := (files ?stn)(join d (page_name (int (n + 1))) \<mapsto> Binary b,
                     ?sp \<mapsto> StatusJson ?w),
          status_log := status_log ?stn @ [?w]\<rparr>"
      by blast
    have sj: "same_job r ?w" using j(1) by (simp add: same_job_def)
    show ?thesis
      unfolding step eq using True l m j c dd sj
      by (intro exI [of _ ?w] exI [of _ "ws @ [?w]"]) simp
  qed
qed


lemma setTotalPages_present:
  assumes "files st sp = Some (StatusJson r)" "writable e sp"
  shows "setTotalPages e sp n st =
           (None, st\<lparr>clock_reads := Suc (clock_reads st),
                     files := (files st)(sp \<mapsto> StatusJson
                        \<lparr>status = Processing, totalPages = n, processedPages = 0,
                         startedAt = startedAt r, updatedAt = Some (now e (clock_reads st)),
                         completedAt = None, error = None\<rparr>),
                     status_log := status_log st @
                        [\<lparr>status = Processing, totalPages = n, processedPages = 0,
                          startedAt = startedAt r, updatedAt = Some (now e (clock_reads st)),
                          completedAt = None, error = None\<rparr>]\<rparr>)"
  using assms
  by (simp add: setTotalPages_def readStatus_present new_Date_def writeFileSync_def)

lemma markCompleted_present:
  assumes "files st sp = Some (StatusJson r)" "writable e sp"
  shows "markCompleted e sp st =
           (None, st\<lparr>clock_reads := Suc (Suc (clock_reads st)),
                     files := (files st)(sp \<mapsto> StatusJson
                        (r\<lparr>status := Completed, completedAt := Some (now e (clock_reads st)),
                           updatedAt := Some (now e (Suc (clock_reads st)))\<rparr>)),
                     status_log := status_log st @
                        [r\<lparr>status := Completed, completedAt := Some (now e (clock_reads st)),
                           updatedAt := Some (now e (Suc (clock_reads st)))\<rparr>]\<rparr>)"
  using assms
  by (simp add: markCompleted_def readStatus_present new_Date_def writeFileSync_def)

lemma markFailed_present:
  assumes "files st sp = Some (StatusJson r)" "writable e sp"
  shows "markFailed e sp err st =
           (None, st\<lparr>clock_reads := Suc (clock_reads st),
                     files := (files st)(sp \<mapsto> StatusJson
                        (r\<lparr>status := Failed, error := Some (error_message err),
                           updatedAt := Some (now e (clock_reads st))\<rparr>)),
                     status_log := status_log st @
                        [r\<lparr>status := Failed, error := Some (error_message err),
                           updatedAt := Some (now e (clock_reads st))\<rparr>]\<rparr>)"
  using assms
  by (simp add: markFailed_def readStatus_present new_Date_def writeFileSync_def)

lemma job_load_fails:
  assumes "files st sp = Some (StatusJson r)" "writable e sp"
    and "load_source e st p = Inl err"
  shows "processPdfInBackground e p d sp st =
           st\<lparr>clock_reads := Suc (clock_reads st),
              files := (files st)(sp \<mapsto> StatusJson
                 (r\<lparr>status := Failed, error := Some (error_message err),
                    updatedAt := Some (now e (clock_reads st))\<rparr>)),
              status_log := status_log st @
                 [r\<lparr>status := Failed, error := Some (error_message err),
                    updatedAt := Some (now e (clock_reads st))\<rparr>]\<rparr>"
proof -
  from assms(3) have "job_body e p d sp st = (Some err, st)"
    by (auto simp: job_body_def load_source_def split: sum.splits)
  then show ?thesis
    by (simp add: processPdfInBackground_def markFailed_present [OF assms(1,2)])
qed

lemma job_load_succeeds:
  assumes sf: "files st (join d ''status.json'') = Some (StatusJson r)"
    and w: "writable e (join d ''status.json'')"
    and ld: "load_source e st p = Inr doc"
  shows "\<exists>r' ws t0 t1 t2.
     status_log (processPdfInBackground e p d (join d ''status.json'') st)
       = status_log st
           @ [\<lparr>status = Processing, totalPages = pageCount doc, processedPages = 0,
                startedAt = startedAt r, updatedAt = Some t0, completedAt = None,
                error = None\<rparr>]
           @ ws
           @ [r'\<lparr>status := Completed, completedAt := Some t1, updatedAt := Some t2\<rparr>]
     \<and> files (processPdfInBackground e p d (join d ''status.json'') st) (join d ''status.json'')
          = Some (StatusJson (r'\<lparr>status := Completed, completedAt := Some t1,
                                    updatedAt := Some t2\<rparr>))
     \<and> map processedPages ws = map Suc (filter (page_succeeds e doc d) [0..<pageCount doc])
     \<and> processedPages r' = last (0 # map processedPages ws)
     \<and> status r' = Processing \<and> totalPages r' = pageCount doc \<and> startedAt r' = startedAt r
     \<and> completedAt r' = None \<and> error r' = None
     \<and> (\<forall>w\<in>set ws. status w = Processing \<and> totalPages w = pageCount doc
            \<and> startedAt w = startedAt r \<and> completedAt w = None \<and> error w = None)
     \<and> copy_log (processPdfInBackground e p d (join d ''status.json'') st)
          = copy_log st @ map int [0..<pageCount doc]"
proof -
  let ?sp = "join d ''status.json''"
  let ?n = "pageCount doc"
  let ?t0 = "now e (clock_reads st)"
  let ?fresh = "\<lparr>status = Processing, totalPages = ?n, processedPages = 0,
                 startedAt = startedAt r, updatedAt = Some ?t0, completedAt = None,
                 error = None\<rparr>"
  let ?st1 = "st\<lparr>clock_reads := Suc (clock_reads st),
                 files := (files st)(?sp \<mapsto> StatusJson ?fresh),
                 status_log := status_log st @ [?fresh]\<rparr>"
  let ?st2 = "fold (process_page e doc d ?sp) [0..<?n] ?st1"
  have f1: "files ?st1 ?sp = Some (StatusJson ?fresh)" by simp
  from page_loop [OF f1 w, of doc ?n] obtain r' ws where
    f: "files ?st2 ?sp = Some (StatusJson r')"
    and l: "status_log ?st2 = status_log ?st1 @ ws"
    and m: "map processedPages ws = map Suc (filter (page_succeeds e doc d) [0..<?n])"
    and p: "processedPages r' = last (processedPages ?fresh # map processedPages ws)"
    and j: "same_job ?fresh r'" "\<forall>w\<in>set ws. same_job ?fresh w"
    and c: "copy_log ?st2 = copy_log ?st1 @ map int [0..<?n]"
    by blast
  let ?final = "r'\<lparr>status := Completed, completedAt := Some (now e (clock_reads ?st2)),
                    updatedAt := Some (now e (Suc (clock_reads ?st2)))\<rparr>"
  have body: "job_body e p d ?sp st = markCompleted e ?sp ?st2"
    using ld setTotalPages_present [OF sf w, of ?n]
    by (auto simp: job_body_def load_source_def split: sum.splits)
  have run: "processPdfInBackground e p d ?sp st =
       ?st2\<lparr>clock_reads := Suc (Suc (clock_reads ?st2)),
            files := (files ?st2)(?sp \<mapsto> StatusJson ?final),
            status_log := status_log ?st2 @ [?final]\<rparr>"
    unfolding processPdfInBackground_def body markCompleted_present [OF f w] by simp
  show ?thesis
    unfolding run using l m p j c
    by (intro exI [of _ r'] exI [of _ ws] exI [of _ ?t0]
          exI [of _ "now e (clock_reads ?st2)"] exI [of _ "now e (Suc (clock_reads ?st2))"])
       (simp add: same_job_def)
qed


subsection \<open>The example jobs\<close>

lemma torn_basename: "basename ''/pdf/torn.pdf'' ''.pdf'' = ''torn''"
  by code_simp

lemma torn_start:
  "POST_process sample_env sample_server (Some ''/pdf/torn.pdf'')
     = (Started ''torn'', started_server ''torn'',
        Some (''/pdf/torn.pdf'', pages_dir ''torn'', join (pages_dir ''torn'') ''status.json''))"
  by (simp add: POST_process_def torn_basename existsSync_def sample_server_def sample_env_def
        started_server_def pages_dir_def join_def mkdirSync_def new_Date_def writeFileSync_def
        Let_def)

lemma torn_ready:
  "files (started_server ''torn'') (join (pages_dir ''torn'') ''status.json'')
     = Some (StatusJson \<lparr>status = Processing, totalPages = 0, processedPages = 0,
                          startedAt = 1000, updatedAt = None, completedAt = None,
                          error = None\<rparr>)"
  "writable sample_env (join (pages_dir ''torn'') ''status.json'')"
  "load_source sample_env (started_server ''torn'') ''/pdf/torn.pdf'' = Inr torn_doc"
  by (simp_all add: started_server_def sample_env_def load_source_def readFileSync_def
        sample_server_def join_def pages_dir_def)

lemma torn_pages:
  "pageCount torn_doc = 2"
  "filter (page_succeeds sample_env torn_doc (pages_dir ''torn'')) [0..<2] = [0]"
  by (simp add: torn_doc_def, code_simp)


lemma torn_run:
  "run_job sample_env sample_server (Some ''/pdf/torn.pdf'')
     = processPdfInBackground sample_env ''/pdf/torn.pdf'' (pages_dir ''torn'')
         (join (pages_dir ''torn'') ''status.json'') (started_server ''torn'')"
  by (simp add: run_job_def torn_start)

lemma torn_writes:
  "map processedPages (job_writes sample_env sample_server (Some ''/pdf/torn.pdf''))
     = [0, 0, 1, 1]"
proof -
  have l: "status_log (started_server ''torn'')
      = [\<lparr>status = Processing, totalPages = 0, processedPages = 0,
           startedAt = 1000, updatedAt = None, completedAt = None, error = None\<rparr>]"
    by (simp add: started_server_def)
  have l0: "status_log sample_server = []" by (simp add: sample_server_def)
  from job_load_succeeds [OF torn_ready] show ?thesis
    unfolding job_writes_def torn_run torn_pages l l0
    by auto
qed

lemma corrupt_ready:
  "files (started_server ''corrupt'') (join (pages_dir ''corrupt'') ''status.json'')
     = Some (StatusJson \<lparr>status = Processing, totalPages = 0, processedPages = 0,
                          startedAt = 1000, updatedAt = None, completedAt = None,
                          error = None\<rparr>)"
  "writable sample_env (join (pages_dir ''corrupt'') ''status.json'')"
  "load_source sample_env (started_server ''corrupt'') ''/pdf/corrupt.pdf''
     = Inl (ErrorObj ''No PDF header found'')"
  by (simp_all add: started_server_def sample_env_def load_source_def readFileSync_def
        sample_server_def join_def pages_dir_def)

lemma good_ready:
  "files (started_server ''good'') (join (pages_dir ''good'') ''status.json'')
     = Some (StatusJson \<lparr>status = Processing, totalPages = 0, processedPages = 0,
                          startedAt = 1000, updatedAt = None, completedAt = None,
                          error = None\<rparr>)"
  "writable sample_env (join (pages_dir ''good'') ''status.json'')"
  by (simp_all add: started_server_def sample_env_def)

lemma busy_ready:
  "files busy_server ''/pdf-pages/good/status.json''
     = Some (StatusJson \<lparr>status = Processing, totalPages = 3, processedPages = 2,
                       startedAt = 900, updatedAt = Some 950, completedAt = None,
                       error = None\<rparr>)"
  "writable sample_env ''/pdf-pages/good/status.json''"
  by (simp_all add: busy_server_def sample_env_def)

subsection \<open>Page failures\<close>

text \<open>
  The job for the two-page document whose second page cannot be copied: both pages are
  attempted and the job completes, but \<open>processedPages\<close> ends at 1, not at the number of
  the last page attempted.
\<close>

theorem last_page_fails_counterexample:
  "copy_log (run_job sample_env sample_server (Some ''/pdf/torn.pdf'')) = [0, 1]
   \<and> map_option status
        (status_of (run_job sample_env sample_server (Some ''/pdf/torn.pdf''))
           ''/pdf-pages/torn/status.json'') = Some Completed
   \<and> map_option processedPages
        (status_of (run_job sample_env sample_server (Some ''/pdf/torn.pdf''))
           ''/pdf-pages/torn/status.json'') = Some 1"
proof -
  have sp: "join (pages_dir ''torn'') ''status.json'' = ''/pdf-pages/torn/status.json''"
    by (simp add: join_def pages_dir_def)
  have c: "copy_log (started_server ''torn'') = []"
    by (simp add: started_server_def sample_server_def)
  from job_load_succeeds [OF torn_ready] show ?thesis
    unfolding torn_run torn_pages sp c
    by (auto simp: status_of_def upt_rec)
qed

text \<open>
  Claim C3 (as amended). In the per-page loop a failure to extract or to write one page
  does not abort the job: every page index is handed to \<open>copyPages\<close> in turn, and the job
  ends with status \<open>completed\<close>. After the loop \<open>processedPages\<close> is the number of the last
  page that went through (0 if none did), which is not the last page attempted when
  that one failed.
\<close>

theorem page_failures_do_not_abort:
  assumes "files st (join d ''status.json'') = Some (StatusJson r)"
    and "writable e (join d ''status.json'')"
    and "load_source e st p = Inr doc"
  shows "\<exists>fin.
     status_of (processPdfInBackground e p d (join d ''status.json'') st) (join d ''status.json'')
       = Some fin
     \<and> status fin = Completed \<and> completedAt fin \<noteq> None \<and> error fin = None
     \<and> totalPages fin = pageCount doc
     \<and> processedPages fin
          = last (0 # map Suc (filter (page_succeeds e doc d) [0..<pageCount doc]))
     \<and> copy_log (processPdfInBackground e p d (join d ''status.json'') st)
          = copy_log st @ map int [0..<pageCount doc]"
  using job_load_succeeds [OF assms] by (clarsimp simp: status_of_def simp del: last.simps)


theorem page_failures_do_not_abort_witness:
  "\<exists>fin.
     status_of (processPdfInBackground sample_env ''/pdf/torn.pdf'' (pages_dir ''torn'')
                  (join (pages_dir ''torn'') ''status.json'') (started_server ''torn''))
       (join (pages_dir ''torn'') ''status.json'') = Some fin
     \<and> status fin = Completed \<and> totalPages fin = 2 \<and> processedPages fin = 1"
  using page_failures_do_not_abort [OF torn_ready]
  unfolding torn_pages by auto

subsection \<open>Load failure\<close>

text \<open>
  Claim C5. If loading the source document fails (the file cannot be read, or the PDF
  library throws), the status record becomes \<open>failed\<close> with the thrown error's message, or
  \<open>Unknown error\<close> if what was thrown is no \<open>Error\<close>; \<open>processedPages\<close> and every field other
  than \<open>status\<close>, \<open>error\<close> and \<open>updatedAt\<close> keep their values, and no page was attempted.
  The message is non-empty unless the library throws an \<open>Error\<close> whose message is empty,
  which neither \<open>fs\<close> nor the PDF library does.
\<close>

theorem load_failure_marks_failed:
  assumes "files st sp = Some (StatusJson r)"
    and "writable e sp"
    and "load_source e st p = Inl err"
    and "err \<noteq> ErrorObj []"
  shows "status_of (processPdfInBackground e p d sp st) sp
           = Some (r\<lparr>status := Failed, error := Some (error_message err),
                      updatedAt := Some (now e (clock_reads st))\<rparr>)
     \<and> error_message err \<noteq> []
     \<and> map_option processedPages (status_of (processPdfInBackground e p d sp st) sp)
          = Some (processedPages r)
     \<and> copy_log (processPdfInBackground e p d sp st) = copy_log st"
proof -
  have "error_message err \<noteq> []"
    using assms(4) by (cases err) (simp_all add: error_message_def)
  then show ?thesis
    unfolding job_load_fails [OF assms(1-3)] by (simp add: status_of_def)
qed

theorem load_failure_marks_failed_witness:
  "status_of (processPdfInBackground sample_env ''/pdf/corrupt.pdf'' (pages_dir ''corrupt'')
                (join (pages_dir ''corrupt'') ''status.json'') (started_server ''corrupt''))
     (join (pages_dir ''corrupt'') ''status.json'')
   = Some \<lparr>status = Failed, totalPages = 0, processedPages = 0, startedAt = 1000,
           updatedAt = Some 1001, completedAt = None, error = Some ''No PDF header found''\<rparr>"
  using load_failure_marks_failed [OF corrupt_ready, of "pages_dir ''corrupt''"]
  by (simp add: error_message_def sample_env_def started_server_def)

subsection \<open>Setting the page count\<close>

text \<open>
  On a status file that says two pages are done, the write resets \<open>processedPages\<close> to 0.
\<close>

theorem setTotalPages_resets_counterexample:
  "map_option processedPages (status_of busy_server ''/pdf-pages/good/status.json'') = Some 2
   \<and> map_option processedPages
        (status_of (snd (setTotalPages sample_env ''/pdf-pages/good/status.json'' 3 busy_server))
           ''/pdf-pages/good/status.json'') = Some 0"
  unfolding setTotalPages_present [OF busy_ready]
  by (simp add: status_of_def busy_server_def)

text \<open>
  Claim C7 (as amended). The write made once the page count is known sets \<open>totalPages\<close>
  and \<open>updatedAt\<close>, keeps \<open>startedAt\<close>, and sets \<open>status\<close> to \<open>processing\<close> and
  \<open>processedPages\<close> to 0 with no \<open>completedAt\<close> and no \<open>error\<close>. On the record the start
  request has just written it therefore changes \<open>totalPages\<close> and \<open>updatedAt\<close> only.
\<close>

theorem setTotalPages_effect:
  assumes "files st sp = Some (StatusJson r)"
    and "writable e sp"
  shows "status_of (snd (setTotalPages e sp n st)) sp
           = Some \<lparr>status = Processing, totalPages = n, processedPages = 0,
                   startedAt = startedAt r, updatedAt = Some (now e (clock_reads st)),
                   completedAt = None, error = None\<rparr>
     \<and> (status r = Processing \<and> processedPages r = 0 \<and> completedAt r = None
          \<and> error r = None \<longrightarrow>
        status_of (snd (setTotalPages e sp n st)) sp
           = Some (r\<lparr>totalPages := n, updatedAt := Some (now e (clock_reads st))\<rparr>))"
  unfolding setTotalPages_present [OF assms] by (simp add: status_of_def)

theorem setTotalPages_effect_witness:
  "status_of (snd (setTotalPages sample_env (join (pages_dir ''good'') ''status.json'') 3
        (started_server ''good''))) (join (pages_dir ''good'') ''status.json'')
   = Some (\<lparr>status = Processing, totalPages = 0, processedPages = 0,
             startedAt = 1000, updatedAt = None, completedAt = None,
             error = None\<rparr>\<lparr>totalPages := 3, updatedAt := Some 1001\<rparr>)"
  using setTotalPages_effect [OF good_ready, of 3]
  by (simp add: sample_env_def started_server_def)

subsection \<open>One uninterrupted job\<close>

lemma POST_process_cases:
  obtains (refused) r st1 where "POST_process e st pdfPath = (r, st1, None)"
      "status_log st1 = status_log st"
    | (started) p st1 t where "pdfPath = Some p"
      "POST_process e st pdfPath
         = (Started (basename p ''.pdf''), st1,
            Some (p, pages_dir (basename p ''.pdf''),
                  join (pages_dir (basename p ''.pdf'')) ''status.json''))"
      "writable e (join (pages_dir (basename p ''.pdf'')) ''status.json'')"
      "files st1 (join (pages_dir (basename p ''.pdf'')) ''status.json'')
         = Some (StatusJson \<lparr>status = Processing, totalPages = 0, processedPages = 0,
                              startedAt = t, updatedAt = None, completedAt = None,
                              error = None\<rparr>)"
      "status_log st1 = status_log st
         @ [\<lparr>status = Processing, totalPages = 0, processedPages = 0,
              startedAt = t, updatedAt = None, completedAt = None, error = None\<rparr>]"
proof (cases "\<exists>p. pdfPath = Some p \<and> p \<noteq> [] \<and> existsSync st p
                \<and> writable e (join (pages_dir (basename p ''.pdf'')) ''status.json'')")
  case True
  then obtain p where p: "pdfPath = Some p" "p \<noteq> []" "existsSync st p"
    "writable e (join (pages_dir (basename p ''.pdf'')) ''status.json'')" by blast
  let ?d = "pages_dir (basename p ''.pdf'')"
  let ?st1 = "if \<not> existsSync st ?d then mkdirSync ?d st else st"
  let ?init = "\<lparr>status = Processing, totalPages = 0, processedPages = 0,
                startedAt = now e (clock_reads ?st1), updatedAt = None, completedAt = None,
                error = None\<rparr>"
  let ?st3 = "?st1\<lparr>clock_reads := Suc (clock_reads ?st1),
                   files := (files ?st1)(join ?d ''status.json'' \<mapsto> StatusJson ?init),
                   status_log := status_log ?st1 @ [?init]\<rparr>"
  have a: "POST_process e st pdfPath
         = (Started (basename p ''.pdf''), ?st3, Some (p, ?d, join ?d ''status.json''))"
    using p by (simp add: POST_process_def Let_def new_Date_def writeFileSync_def)
  have b: "files ?st3 (join ?d ''status.json'') = Some (StatusJson ?init)" by simp
  have c: "status_log ?st3 = status_log st @ [?init]" by (simp add: mkdirSync_def)
  show ?thesis by (rule started [OF p(1) a p(4) b c])
next
  case False
  have "\<exists>r st1. POST_process e st pdfPath = (r, st1, None) \<and> status_log st1 = status_log st"
    using False
    by (auto simp: POST_process_def Let_def new_Date_def writeFileSync_def mkdirSync_def
             split: option.splits)
  then show ?thesis using refused by blast
qed


lemma job_writes_shape:
  "status_log (run_job e st pdfPath) = status_log st @ job_writes e st pdfPath \<and>
   (job_writes e st pdfPath = []
   \<or> (\<exists>t m t'. job_writes e st pdfPath =
         [\<lparr>status = Processing, totalPages = 0, processedPages = 0, startedAt = t,
           updatedAt = None, completedAt = None, error = None\<rparr>,
          \<lparr>status = Failed, totalPages = 0, processedPages = 0, startedAt = t,
           updatedAt = Some t', completedAt = None, error = Some m\<rparr>])
   \<or> (\<exists>t n t0 ws r' t1 t2. job_writes e st pdfPath =
         [\<lparr>status = Processing, totalPages = 0, processedPages = 0, startedAt = t,
           updatedAt = None, completedAt = None, error = None\<rparr>,
          \<lparr>status = Processing, totalPages = n, processedPages = 0, startedAt = t,
           updatedAt = Some t0, completedAt = None, error = None\<rparr>]
         @ ws @ [r'\<lparr>status := Completed, completedAt := Some t1, updatedAt := Some t2\<rparr>]
       \<and> (\<exists>is. map processedPages ws = map Suc is \<and> sorted is \<and> (\<forall>i\<in>set is. i < n))
       \<and> processedPages r' = last (0 # map processedPages ws)
       \<and> totalPages r' = n \<and> error r' = None
       \<and> (\<forall>w\<in>set ws. status w = Processing \<and> totalPages w = n
              \<and> completedAt w = None \<and> error w = None)))"
proof (cases rule: POST_process_cases [of e st pdfPath])
  case (refused r st1)
  then show ?thesis by (simp add: job_writes_def run_job_def)
next
  case (started p st1 t)
  let ?d = "pages_dir (basename p ''.pdf'')"
  let ?sp = "join ?d ''status.json''"
  let ?init = "\<lparr>status = Processing, totalPages = 0, processedPages = 0, startedAt = t,
                updatedAt = None, completedAt = None, error = None\<rparr>"
  have run: "run_job e st pdfPath = processPdfInBackground e p ?d ?sp st1"
    using started(2) by (simp add: run_job_def)
  show ?thesis
  proof (cases "load_source e st1 p")
    case (Inl err)
    from job_load_fails [OF started(4,3) Inl, of ?d]
    have "status_log (run_job e st pdfPath) = status_log st @
        [?init, ?init\<lparr>status := Failed, error := Some (error_message err),
                       updatedAt := Some (now e (clock_reads st1))\<rparr>]"
      unfolding run using started(5) by simp
    then have "status_log (run_job e st pdfPath) = status_log st @ job_writes e st pdfPath
      \<and> job_writes e st pdfPath =
        [?init, \<lparr>status = Failed, totalPages = 0, processedPages = 0, startedAt = t,
           updatedAt = Some (now e (clock_reads st1)), completedAt = None,
           error = Some (error_message err)\<rparr>]"
      by (simp add: job_writes_def)
    then show ?thesis by blast
  next
    case (Inr doc)
    from job_load_succeeds [OF started(4,3) Inr]
    obtain r' ws t0 t1 t2 where *:
     "status_log (processPdfInBackground e p ?d ?sp st1)
       = status_log st1
           @ [\<lparr>status = Processing, totalPages = pageCount doc, processedPages = 0,
                startedAt = startedAt ?init, updatedAt = Some t0, completedAt = None,
                error = None\<rparr>]
           @ ws
           @ [r'\<lparr>status := Completed, completedAt := Some t1, updatedAt := Some t2\<rparr>]
     \<and> files (processPdfInBackground e p ?d ?sp st1) ?sp
          = Some (StatusJson (r'\<lparr>status := Completed, completedAt := Some t1,
                                    updatedAt := Some t2\<rparr>))
     \<and> map processedPages ws = map Suc (filter (page_succeeds e doc ?d) [0..<pageCount doc])
     \<and> processedPages r' = last (0 # map processedPages ws)
     \<and> status r' = Processing \<and> totalPages r' = pageCount doc
     \<and> startedAt r' = startedAt ?init
     \<and> completedAt r' = None \<and> error r' = None
     \<and> (\<forall>w\<in>set ws. status w = Processing \<and> totalPages w = pageCount doc
            \<and> startedAt w = startedAt ?init \<and> completedAt w = None \<and> error w = None)
     \<and> copy_log (processPdfInBackground e p ?d ?sp st1)
          = copy_log st1 @ map int [0..<pageCount doc]"
      by blast
    let ?ok = "filter (page_succeeds e doc ?d) [0..<pageCount doc]"
    have w: "job_writes e st pdfPath =
         [?init,
          \<lparr>status = Processing, totalPages = pageCount doc, processedPages = 0, startedAt = t,
           updatedAt = Some t0, completedAt = None, error = None\<rparr>]
         @ ws @ [r'\<lparr>status := Completed, completedAt := Some t1, updatedAt := Some t2\<rparr>]"
      using * started(5) by (simp add: job_writes_def run)
    have pre: "status_log (run_job e st pdfPath) = status_log st @ job_writes e st pdfPath"
      using * started(5) by (simp add: job_writes_def run)
    have oks: "map processedPages ws = map Suc ?ok \<and> sorted ?ok \<and> (\<forall>i\<in>set ?ok. i < pageCount doc)"
      using * by (simp add: sorted_wrt_filter)
    have rest: "processedPages r' = last (0 # map processedPages ws)
       \<and> totalPages r' = pageCount doc \<and> error r' = None
       \<and> (\<forall>w\<in>set ws. status w = Processing \<and> totalPages w = pageCount doc
              \<and> completedAt w = None \<and> error w = None)"
      using * by blast
    from pre w oks rest show ?thesis by blast
  qed
qed


lemma sorted_snoc_last:
  fixes xs :: "nat list"
  shows "sorted xs \<Longrightarrow> sorted (xs @ [last (0 # xs)])"
proof (induction xs)
  case Nil
  show ?case by simp
next
  case (Cons x xs)
  show ?case
  proof (cases "xs = []")
    case True
    then show ?thesis by simp
  next
    case False
    with Cons.prems have "x \<le> last xs" by simp
    moreover from Cons have "sorted (xs @ [last (0 # xs)])" by simp
    ultimately show ?thesis using Cons.prems False by (simp add: sorted_append)
  qed
qed

lemma sorted_progress:
  fixes xs :: "nat list"
  assumes "sorted xs"
  shows "sorted (0 # 0 # map Suc xs @ [last (0 # map Suc xs)])"
proof -
  have "sorted (map Suc xs)"
    using assms by (simp add: sorted_map sorted_wrt_iff_nth_less)
  from sorted_snoc_last [OF this] show ?thesis by simp
qed

text \<open>
  Claim C4. Every status record written during one job, from the record of the start
  request to the terminal one, satisfies the invariant: \<open>processedPages \<le> totalPages\<close>,
  \<open>completedAt\<close> is present exactly when the status is \<open>completed\<close>, and \<open>error\<close> is present
  exactly when the status is \<open>failed\<close>.
\<close>

theorem written_status_invariant:
  "status_log (run_job e st pdfPath) = status_log st @ job_writes e st pdfPath
   \<and> (\<forall>r\<in>set (job_writes e st pdfPath). status_invariant r)"
proof -
  from job_writes_shape [of e st pdfPath]
  have pre: "status_log (run_job e st pdfPath) = status_log st @ job_writes e st pdfPath"
    by blast
  from job_writes_shape [of e st pdfPath]
  consider (none) "job_writes e st pdfPath = []"
    | (failed) t m t' where "job_writes e st pdfPath =
         [\<lparr>status = Processing, totalPages = 0, processedPages = 0, startedAt = t,
           updatedAt = None, completedAt = None, error = None\<rparr>,
          \<lparr>status = Failed, totalPages = 0, processedPages = 0, startedAt = t,
           updatedAt = Some t', completedAt = None, error = Some m\<rparr>]"
    | (completed) t n t0 ws r' t1 t2 oks where "job_writes e st pdfPath =
         [\<lparr>status = Processing, totalPages = 0, processedPages = 0, startedAt = t,
           updatedAt = None, completedAt = None, error = None\<rparr>,
          \<lparr>status = Processing, totalPages = n, processedPages = 0, startedAt = t,
           updatedAt = Some t0, completedAt = None, error = None\<rparr>]
         @ ws @ [r'\<lparr>status := Completed, completedAt := Some t1, updatedAt := Some t2\<rparr>]"
       "map processedPages ws = map Suc oks" "sorted oks" "\<forall>i\<in>set oks. i < n"
       "processedPages r' = last (0 # map processedPages ws)"
       "totalPages r' = n" "error r' = None"
       "\<forall>w\<in>set ws. status w = Processing \<and> totalPages w = n
              \<and> completedAt w = None \<and> error w = None"
    by blast
  then have "\<forall>r\<in>set (job_writes e st pdfPath). status_invariant r"
  proof cases
    case none
    then show ?thesis by simp
  next
    case failed
    then show ?thesis by (simp add: status_invariant_def)
  next
    case completed
    have "set (map processedPages ws) = set (map Suc oks)"
      using completed(2) by simp
    then have img: "processedPages ` set ws = Suc ` set oks" by simp
    have ws_le: "\<forall>w\<in>set ws. processedPages w \<le> n"
    proof
      fix w assume "w \<in> set ws"
      then have "processedPages w \<in> Suc ` set oks" using img by blast
      then obtain i where "i \<in> set oks" "processedPages w = Suc i" by blast
      with completed(4) show "processedPages w \<le> n" by (simp add: Suc_le_eq)
    qed
    have "last (0 # map Suc oks) \<le> n"
      using completed(4) by (cases "oks = []") (simp_all add: last_map Suc_le_eq)
    then have fin_le: "processedPages r' \<le> n"
      using completed(2,5) by simp
    show ?thesis
      unfolding completed(1)
      using ws_le fin_le completed(6,7,8) by (auto simp: status_invariant_def)
  qed
  with pre show ?thesis by blast
qed

theorem written_status_invariant_witness:
  "length (job_writes sample_env sample_server (Some ''/pdf/torn.pdf'')) = 4
   \<and> list_all status_invariant (job_writes sample_env sample_server (Some ''/pdf/torn.pdf''))"
proof -
  have "length (job_writes sample_env sample_server (Some ''/pdf/torn.pdf'')) = 4"
    using arg_cong [OF torn_writes, of length] by simp
  with written_status_invariant [of sample_env sample_server "Some ''/pdf/torn.pdf''"]
  show ?thesis by (simp add: list_all_iff)
qed

text \<open>
  Claim C6. Within one uninterrupted job the values of \<open>processedPages\<close> written to the
  status file, in the order of the writes, never decrease.
\<close>

theorem processedPages_never_regresses:
  "status_log (run_job e st pdfPath) = status_log st @ job_writes e st pdfPath
   \<and> sorted (map processedPages (job_writes e st pdfPath))"
proof -
  from job_writes_shape [of e st pdfPath]
  have pre: "status_log (run_job e st pdfPath) = status_log st @ job_writes e st pdfPath"
    by blast
  from job_writes_shape [of e st pdfPath]
  consider (none) "job_writes e st pdfPath = []"
    | (failed) t m t' where "job_writes e st pdfPath =
         [\<lparr>status = Processing, totalPages = 0, processedPages = 0, startedAt = t,
           updatedAt = None, completedAt = None, error = None\<rparr>,
          \<lparr>status = Failed, totalPages = 0, processedPages = 0, startedAt = t,
           updatedAt = Some t', completedAt = None, error = Some m\<rparr>]"
    | (completed) t n t0 ws r' t1 t2 oks where "job_writes e st pdfPath =
         [\<lparr>status = Processing, totalPages = 0, processedPages = 0, startedAt = t,
           updatedAt = None, completedAt = None, error = None\<rparr>,
          \<lparr>status = Processing, totalPages = n, processedPages = 0, startedAt = t,
           updatedAt = Some t0, completedAt = None, error = None\<rparr>]
         @ ws @ [r'\<lparr>status := Completed, completedAt := Some t1, updatedAt := Some t2\<rparr>]"
       "map processedPages ws = map Suc oks" "sorted oks"
       "processedPages r' = last (0 # map processedPages ws)"
    by blast
  then have "sorted (map processedPages (job_writes e st pdfPath))"
  proof cases
    case none
    then show ?thesis by simp
  next
    case failed
    then show ?thesis by simp
  next
    case completed
    have "map processedPages (job_writes e st pdfPath)
            = 0 # 0 # map Suc oks @ [last (0 # map Suc oks)]"
      unfolding completed(1) using completed(2,4) by simp
    with sorted_progress [OF completed(3)] show ?thesis by simp
  qed
  with pre show ?thesis by blast
qed


theorem processedPages_never_regresses_witness:
  "map processedPages (job_writes sample_env sample_server (Some ''/pdf/torn.pdf''))
     = [0, 0, 1, 1]
   \<and> sorted (map processedPages (job_writes sample_env sample_server (Some ''/pdf/torn.pdf'')))"
  using processedPages_never_regresses [of sample_env sample_server "Some ''/pdf/torn.pdf''"]
    torn_writes by blast

end
